theory Spec2Isabelle
  imports Complex_Main "HOL-Library.Sublist" "HOL-Library.AList"
begin

section \<open>Strings and result dictionaries\<close>

text \<open>
  Python strings are modelled as HOL strings holding the UTF-8 bytes of the text. The
  keywords the program searches for are ASCII, and an ASCII keyword occurs in a text
  exactly when its bytes occur in the UTF-8 encoding.

  \<open>str.lower()\<close> maps the ASCII capitals to their small letters. Exactly two further code
  points have an ASCII letter in their lowercase form: U+212A (KELVIN SIGN, bytes E2 84 AA)
  lowers to \<open>k\<close>, and U+0130 (bytes C4 B0) lowers to \<open>i\<close> followed by U+0307 (bytes CC
  87). Every other code point beyond ASCII lowers to code points beyond ASCII, none to
  the empty string, so it separates ASCII letters after lowering as it did before, and
  its bytes are kept as they are.
\<close>

definition lower_char :: "char \<Rightarrow> char" where
  "lower_char c =
     (let n = (of_char c :: nat) in if 65 \<le> n \<and> n \<le> 90 then char_of (n + 32) else c)"

function lower :: "string \<Rightarrow> string" where
  "lower [] = []"
| "lower (c # cs) =
     (if c = CHR 0xE2 \<and> take 2 cs = [CHR 0x84, CHR 0xAA] then CHR ''k'' # lower (drop 2 cs)
      else if c = CHR 0xC4 \<and> take 1 cs = [CHR 0xB0]
        then CHR ''i'' # CHR 0xCC # CHR 0x87 # lower (drop 1 cs)
      else lower_char c # lower cs)"
  by pat_completeness auto
termination
  by (relation "measure length") auto

text \<open>\<open>kw in s\<close> on strings: \<open>kw\<close> occurs as a contiguous substring of \<open>s\<close>.\<close>

fun str_contains :: "string \<Rightarrow> string \<Rightarrow> bool" where
  "str_contains kw [] = (kw = [])"
| "str_contains kw (c # cs) = (prefix kw (c # cs) \<or> str_contains kw cs)"

text \<open>\<open>any(keyword in s for keyword in kws)\<close>\<close>

definition any_keyword :: "string list \<Rightarrow> string \<Rightarrow> bool" where
  "any_keyword kws s = list_ex (\<lambda>kw. str_contains kw s) kws"

text \<open>Values stored under the keys whose content the program only copies.\<close>

datatype pyval = PyNone | PyStr string | PyNum rat

text \<open>
  The result dictionaries the remote-call helpers return: always a \<open>success\<close> flag; every
  other key may be absent (\<open>None\<close>). \<open>error\<close>, \<open>error_type\<close>, \<open>image_data\<close>, \<open>model\<close>
  and \<open>audio_url\<close> hold strings wherever the program sets them.
\<close>

record api_result =
  success :: bool
  error :: "string option"
  error_type :: "string option"
  image_data :: "string option"
  image_url :: "pyval option"
  seed :: "pyval option"
  model :: "string option"
  audio_url :: "string option"
  duration :: "pyval option"

definition failure :: "string \<Rightarrow> api_result" where
  \<comment> \<open>\<open>{"success": False, "error": msg}\<close>\<close>
  "failure msg = \<lparr>success = False, error = Some msg, error_type = None, image_data = None,
     image_url = None, seed = None, model = None, audio_url = None, duration = None\<rparr>"

definition quota_failure :: "string \<Rightarrow> api_result" where
  \<comment> \<open>\<open>{"success": False, "error": msg, "error_type": "quota_exhausted"}\<close>\<close>
  "quota_failure msg = (failure msg)\<lparr>error_type := Some ''quota_exhausted''\<rparr>"

text \<open>What a call produces: a returned value, or a raised exception \<open>e\<close> (kept as \<open>str(e)\<close>).\<close>

datatype 'a outcome = Returned 'a | Raised string

section \<open>The retry decorator \<open>api_retry\<close>\<close>

text \<open>
  A decorated function returns either a dictionary with a \<open>success\<close> key (\<open>Std\<close>) or any
  other value (\<open>NonStd\<close>: the prompt builders return plain strings).
\<close>

datatype ret = Std api_result | NonStd string

text \<open>
  \<open>max_retries\<close> is a retry count (every use in the program passes 2 or 3), \<open>delay\<close> the
  initial delay in seconds and \<open>backoff\<close> the factor; they are naturals here.
\<close>

record retry_config =
  max_retries :: nat
  delay :: nat
  backoff :: nat
  jitter :: bool
  retry_on_quota :: bool

text \<open>
  The observable effects of one wrapped call, in order: \<open>Invoke a\<close> is the call of the
  decorated function in attempt \<open>a\<close>; \<open>Sleep w j\<close> is \<open>time.sleep\<close> of the base wait \<open>w\<close>,
  to which up to 10 percent of random jitter is added when \<open>j\<close> holds.
\<close>

datatype effect = Invoke nat | Sleep nat bool

definition result_keywords :: "string list" where
  "result_keywords = [''timeout'', ''network'', ''connection'', ''temporary'', ''server error'', ''5'']"

definition exception_keywords :: "string list" where
  "exception_keywords = [''timeout'', ''network'', ''connection'', ''temporary'',
     ''server error'', ''service unavailable'', ''bad gateway'']"

definition error_text :: "api_result \<Rightarrow> string" where
  \<comment> \<open>\<open>result.get('error', '')\<close>\<close>
  "error_text r = (case error r of None \<Rightarrow> '''' | Some m \<Rightarrow> m)"

definition error_type_text :: "api_result \<Rightarrow> string" where
  \<comment> \<open>\<open>result.get('error_type', '')\<close>\<close>
  "error_type_text r = (case error_type r of None \<Rightarrow> '''' | Some t \<Rightarrow> t)"

text \<open>The retry decision for a returned dictionary whose \<open>success\<close> is false.\<close>

definition should_retry_result :: "retry_config \<Rightarrow> api_result \<Rightarrow> bool" where
  "should_retry_result c r =
     (let error_msg = lower (error_text r);
          error_type = error_type_text r
      in if any_keyword result_keywords error_msg then True
         else if str_contains ''quota'' error_msg \<or> error_type = ''quota_exhausted''
           then retry_on_quota c
         else if str_contains ''json'' error_msg \<or> str_contains ''parse'' error_msg then True
         else False)"

text \<open>The retry decision for a raised exception.\<close>

definition should_retry_exception :: "string \<Rightarrow> bool" where
  "should_retry_exception e = any_keyword exception_keywords (lower e)"

definition wait_time :: "retry_config \<Rightarrow> nat \<Rightarrow> nat" where
  "wait_time c attempt = delay c * backoff c ^ attempt"

definition all_retries_failed :: string where
  "all_retries_failed = map char_of [230, 137, 128, 230, 156, 137, 233, 135, 141, 232, 175,
     149, 233, 131, 189, 229, 164, 177, 232, 180, 165, 228, 186, 134 :: nat]"

text \<open>
  The body of \<open>wrapper\<close>: the loop \<open>for attempt in range(max_retries + 1)\<close> over the
  attempts still to run. \<open>f a\<close> is what the decorated function does when it is called in
  attempt \<open>a\<close>; \<open>last_exception\<close> is the variable of that name.
\<close>

fun retry_loop ::
  "retry_config \<Rightarrow> (nat \<Rightarrow> ret outcome) \<Rightarrow> nat list \<Rightarrow> string option \<Rightarrow> ret outcome \<times> effect list"
where
  "retry_loop c f [] last_exception =
     (case last_exception of
        Some e \<Rightarrow> (Raised e, [])
      | None \<Rightarrow> (Returned (Std (failure all_retries_failed)), []))"
| "retry_loop c f (attempt # rest) last_exception =
     (case f attempt of
        Returned (Std r) \<Rightarrow>
          if success r then (Returned (Std r), [Invoke attempt])
          else if \<not> should_retry_result c r \<or> attempt \<ge> max_retries c
            then (Returned (Std r), [Invoke attempt])
          else (let (res, effs) = retry_loop c f rest last_exception
                in (res, Invoke attempt # Sleep (wait_time c attempt) (jitter c) # effs))
      | Returned (NonStd v) \<Rightarrow> (Returned (NonStd v), [Invoke attempt])
      | Raised e \<Rightarrow>
          if \<not> should_retry_exception e \<or> attempt \<ge> max_retries c
            then (Raised e, [Invoke attempt])
          else (let (res, effs) = retry_loop c f rest (Some e)
                in (res, Invoke attempt # Sleep (wait_time c attempt) (jitter c) # effs)))"

definition api_retry :: "retry_config \<Rightarrow> (nat \<Rightarrow> ret outcome) \<Rightarrow> ret outcome \<times> effect list" where
  "api_retry c f = retry_loop c f [0 ..< max_retries c + 1] None"

text \<open>
  Whether the loop goes on to the next attempt after what the unit of work did in attempt
  \<open>a\<close>: the two tests \<open>if not should_retry or attempt >= max_retries\<close>, and the
  returns for a success and for a value that is no result dictionary.
\<close>

definition retried :: "retry_config \<Rightarrow> nat \<Rightarrow> ret outcome \<Rightarrow> bool" where
  "retried c a out =
     (a < max_retries c \<and>
      (case out of
         Returned (Std r) \<Rightarrow> \<not> success r \<and> should_retry_result c r
       | Returned (NonStd v) \<Rightarrow> False
       | Raised e \<Rightarrow> should_retry_exception e))"

text \<open>The effects of the attempts \<open>j, ..., k - 1\<close> when each of them is followed by a retry.\<close>

definition trace_to :: "retry_config \<Rightarrow> nat \<Rightarrow> nat \<Rightarrow> effect list" where
  "trace_to c j k = concat (map (\<lambda>a. [Invoke a, Sleep (wait_time c a) (jitter c)]) [j ..< k])"

fun is_invoke :: "effect \<Rightarrow> bool" where
  "is_invoke (Invoke a) = True"
| "is_invoke (Sleep w j) = False"

definition invocations :: "effect list \<Rightarrow> nat" where
  "invocations effs = length (filter is_invoke effs)"

text \<open>The error kinds of the specification's classifier, in the order it lists them.\<close>

datatype error_kind = Transient | QuotaExhausted | MalformedResponse | Fatal

definition spec_classify :: "string \<Rightarrow> error_kind" where
  "spec_classify msg =
     (let m = lower msg
      in if any_keyword exception_keywords m then Transient
         else if str_contains ''quota'' m then QuotaExhausted
         else if str_contains ''json'' m \<or> str_contains ''parse'' m then MalformedResponse
         else Fatal)"

text \<open>
  A 5xx status in a message: the digit 5 followed by two further digits. An invocation
  \<open>succeeded\<close> when it returned and did not return a dictionary whose flag is false.
\<close>

definition is_digit :: "char \<Rightarrow> bool" where
  "is_digit c = (c \<in> set ''0123456789'')"

fun has_5xx_status :: "string \<Rightarrow> bool" where
  "has_5xx_status (a # b # c # cs) =
     ((a = CHR ''5'' \<and> is_digit b \<and> is_digit c) \<or> has_5xx_status (b # c # cs))"
| "has_5xx_status cs = False"

fun succeeded :: "ret outcome \<Rightarrow> bool" where
  "succeeded (Returned (Std r)) = success r"
| "succeeded (Returned (NonStd v)) = True"
| "succeeded (Raised e) = False"

definition default_config :: retry_config where
  \<comment> \<open>\<open>api_retry(max_retries=3, delay=1, backoff=2, jitter=True, retry_on_quota=True)\<close>\<close>
  "default_config = \<lparr>max_retries = 3, delay = 1, backoff = 2, jitter = True, retry_on_quota = True\<rparr>"

text \<open>A message that spells the keyword with U+212A, and a unit of work that fails three times.\<close>

definition kelvin_message :: string where
  "kelvin_message = ''NETWOR'' @ [CHR 0xE2, CHR 0x84, CHR 0xAA] @ '' unreachable''"

definition flaky_unit :: "nat \<Rightarrow> ret outcome" where
  "flaky_unit a = (if a = 0 then Raised kelvin_message
                   else if a = 1 then Raised ''Connection reset by peer''
                   else Raised ''quota exceeded'')"


definition ok_result :: api_result where
  "ok_result = \<lparr>success = True, error = None, error_type = None, image_data = Some ''aGVsbG8='',
     image_url = Some PyNone, seed = None, model = Some ''gemini-imagen'', audio_url = None,
     duration = None\<rparr>"


section \<open>The image batch \<open>generate_images_parallel\<close>\<close>

text \<open>
  The keys of tasks and results are the strings \<open>"page_<n>"\<close> (\<open>f"page_{page_number}"\<close>)
  and \<open>"cover"\<close>: distinct page numbers give distinct strings, none of them \<open>"cover"\<close>.
\<close>

datatype key = Page nat | Cover

text \<open>A tuple \<open>(key, prompt, page_number, is_cover)\<close> of \<open>prompts_data\<close>.\<close>

type_synonym prompt_info = "key \<times> string \<times> nat \<times> bool"

text \<open>
  A Python dictionary keeps one value per key, in insertion order: an association list
  written with \<open>AList.update\<close> and read with \<open>map_of\<close>.
\<close>

type_synonym 'v dict = "(key \<times> 'v) list"

text \<open>
  The future of one submitted task. \<open>Pending\<close>: queued in the executor; \<open>Running t\<close>:
  a worker thread has passed the test of the flag at time \<open>t\<close> and is inside
  \<open>self.generate_image_gemini\<close>; \<open>Finished out\<close>: \<open>generate_single_image\<close> has returned
  \<open>(key, result)\<close> or raised, and the future is done; \<open>Collected\<close>: done and already
  yielded by \<open>as_completed\<close>; \<open>Cancelled\<close>: cancelled while still queued.
\<close>

datatype fut = Pending | Running nat | Finished "api_result outcome" | Collected | Cancelled

text \<open>
  The variables of one call: the futures in submission order, the closure variable
  \<open>quota_exhausted\<close>, the dictionary \<open>results\<close>, whether the collecting loop is still
  running (it is left by \<open>break\<close>), the tasks for which the image worker was invoked, in
  order, and the clock in seconds.
\<close>

record batch =
  futs :: "fut list"
  quota_exhausted :: bool
  results :: "api_result dict"
  collecting :: bool
  invoked :: "nat list"
  now :: nat

text \<open>
  The arguments, and the environment of the call: \<open>worker i\<close> is what the retry-wrapped
  \<open>self.generate_image_gemini\<close> does for the task submitted at position \<open>i\<close>.
\<close>

record batch_params =
  prompts_data :: "prompt_info list"
  max_concurrent :: nat
  worker :: "nat \<Rightarrow> api_result outcome"

text \<open>
  The threads interleave. A schedule is the list of the atomic events in the order in
  which they happen: a worker thread takes the next queued task (\<open>Start\<close>), a running
  task returns (\<open>Finish\<close>), the main thread takes a done future from \<open>as_completed\<close> and
  runs the loop body on it (\<open>Collect\<close>), the main thread, having seen the flag, cancels
  a still queued future on its way to the \<open>break\<close> (\<open>Cancel\<close>), and time passes
  (\<open>Tick\<close>). \<open>Finish\<close> is the moment at which the task assigns the flag and its future
  becomes done. A queued task that a thread takes before the main thread reaches it in
  the cancelling loop is started, not cancelled.
\<close>

datatype event = Start nat | Finish nat | Collect nat | Cancel nat | Tick nat

definition skipped_message :: string where
  "skipped_message = map char_of [232, 183, 179, 232, 191, 135, 231, 148, 159, 230, 136, 144,
     239, 188, 154, 233, 133, 141, 233, 162, 157, 229, 183, 178, 231, 148, 168, 229, 174, 140 :: nat]"

definition skipped_result :: api_result where
  "skipped_result = quota_failure skipped_message"

definition key_of :: "batch_params \<Rightarrow> nat \<Rightarrow> key" where
  "key_of p i = fst (prompts_data p ! i)"

fun is_running :: "fut \<Rightarrow> bool" where
  "is_running (Running t) = True"
| "is_running f = False"

fun is_done :: "fut \<Rightarrow> bool" where
  "is_done (Finished out) = True"
| "is_done Collected = True"
| "is_done Cancelled = True"
| "is_done f = False"

definition busy :: "batch \<Rightarrow> nat" where
  "busy s = length (filter is_running (futs s))"

text \<open>\<open>not result["success"] and result.get("error_type") == "quota_exhausted"\<close>\<close>

fun reports_quota :: "api_result outcome \<Rightarrow> bool" where
  "reports_quota (Returned r) = (\<not> success r \<and> error_type r = Some ''quota_exhausted'')"
| "reports_quota (Raised e) = False"

text \<open>
  \<open>future.result(timeout=180)\<close> on a future that is done returns its value or raises its
  exception at once, whatever the timeout. \<open>as_completed\<close> is called without a timeout
  and yields only futures that are done, so the loop never calls it on another one.
\<close>

definition future_result :: "api_result outcome \<Rightarrow> nat \<Rightarrow> api_result outcome" where
  "future_result out timeout = out"

text \<open>
  One event. \<open>Start\<close>: the executor runs the tasks in submission order on at most
  \<open>max_concurrent\<close> threads; the task tests \<open>quota_exhausted\<close> first and, when it is set,
  returns the synthesized failure without calling the worker. \<open>Finish\<close>: the worker call
  returns and the task sets the flag on a quota failure. \<open>Collect\<close>: the body of the
  \<open>for future in as_completed(...)\<close> loop, with its \<open>break\<close> and its \<open>except\<close> branch.
  \<open>None\<close>: the event cannot happen in this state.
\<close>

fun step :: "batch_params \<Rightarrow> event \<Rightarrow> batch \<Rightarrow> batch option" where
  "step p (Start i) s =
     (if i < length (futs s) \<and> futs s ! i = Pending \<and> Pending \<notin> set (take i (futs s))
         \<and> busy s < max_concurrent p
      then if quota_exhausted s
           then Some (s\<lparr>futs := (futs s)[i := Finished (Returned skipped_result)]\<rparr>)
           else Some (s\<lparr>futs := (futs s)[i := Running (now s)], invoked := invoked s @ [i]\<rparr>)
      else None)"
| "step p (Finish i) s =
     (if i < length (futs s) \<and> is_running (futs s ! i)
      then Some (s\<lparr>futs := (futs s)[i := Finished (worker p i)],
                   quota_exhausted := quota_exhausted s \<or> reports_quota (worker p i)\<rparr>)
      else None)"
| "step p (Collect i) s =
     (if collecting s \<and> i < length (futs s)
      then case futs s ! i of
             Finished out \<Rightarrow>
               (case future_result out 180 of
                  Returned r \<Rightarrow>
                    Some (s\<lparr>futs := (futs s)[i := Collected],
                            results := AList.update (key_of p i) r (results s),
                            collecting := \<not> quota_exhausted s\<rparr>)
                | Raised e \<Rightarrow>
                    Some (s\<lparr>futs := (futs s)[i := Collected],
                            results := AList.update (key_of p i) (failure e) (results s)\<rparr>))
           | _ \<Rightarrow> None
      else None)"
| "step p (Cancel i) s =
     (if \<not> collecting s \<and> i < length (futs s) \<and> futs s ! i = Pending
      then Some (s\<lparr>futs := (futs s)[i := Cancelled]\<rparr>)
      else None)"
| "step p (Tick n) s = Some (s\<lparr>now := now s + n\<rparr>)"

fun run :: "batch_params \<Rightarrow> event list \<Rightarrow> batch \<Rightarrow> batch option" where
  "run p [] s = Some s"
| "run p (e # es) s = (case step p e s of None \<Rightarrow> None | Some s' \<Rightarrow> run p es s')"

definition init :: "batch_params \<Rightarrow> batch" where
  "init p = \<lparr>futs = map (\<lambda>x. Pending) (prompts_data p), quota_exhausted = False, results = [],
     collecting = True, invoked = [], now = 0\<rparr>"

text \<open>
  The call returns when the loop has ended, by exhausting \<open>as_completed\<close> or by \<open>break\<close>,
  and the executor has shut down, which waits for every task that was not cancelled.
\<close>

definition finished :: "batch \<Rightarrow> bool" where
  "finished s = (if collecting s then list_all (\<lambda>f. f = Collected) (futs s)
                 else list_all is_done (futs s))"

text \<open>
  \<open>generate_images_parallel(prompts_data, max_concurrent)\<close> under a schedule: \<open>None\<close>
  when the schedule is not a complete execution of the call; \<open>ThreadPoolExecutor\<close> raises
  for a pool without threads.
\<close>

definition generate_images_parallel ::
  "batch_params \<Rightarrow> event list \<Rightarrow> api_result dict outcome option" where
  "generate_images_parallel p sched =
     (if max_concurrent p = 0 then Some (Raised ''max_workers must be greater than 0'')
      else case run p sched (init p) of
             None \<Rightarrow> None
           | Some s \<Rightarrow> if finished s then Some (Returned (results s)) else None)"


definition three_tasks :: "prompt_info list" where
  "three_tasks = [(Page 1, ''scene a'', 1, False), (Page 2, ''scene b'', 2, False),
     (Page 3, ''scene c'', 3, False)]"

definition quota_result :: api_result where
  "quota_result = quota_failure ''quota used up''"

text \<open>What holds of the variables of a call at every moment of every execution.\<close>

definition collected :: "fut list \<Rightarrow> nat set" where
  "collected fs = {i. i < length fs \<and> fs ! i = Collected}"

definition batch_inv :: "batch_params \<Rightarrow> batch \<Rightarrow> bool" where
  "batch_inv p s \<longleftrightarrow>
     length (futs s) = length (prompts_data p) \<and>
     (quota_exhausted s \<longrightarrow> (\<exists>i<length (prompts_data p). reports_quota (worker p i))) \<and>
     (\<not> collecting s \<longrightarrow> quota_exhausted s) \<and>
     distinct (map fst (results s)) \<and>
     fst ` set (results s) \<subseteq> key_of p ` collected (futs s) \<and>
     (\<forall>i \<in> set (invoked s). i < length (futs s) \<and> futs s ! i \<noteq> Pending)"




definition quota_batch :: batch_params where
  "quota_batch = \<lparr>prompts_data = three_tasks, max_concurrent = 1,
     worker = (\<lambda>i. if i = 1 then Returned quota_result else Returned ok_result)\<rparr>"



definition two_thread_batch :: batch_params where
  "two_thread_batch = \<lparr>prompts_data = three_tasks, max_concurrent = 2,
     worker = (\<lambda>i. if i = 0 then Returned quota_result else Returned ok_result)\<rparr>"

definition slow_batch :: batch_params where
  "slow_batch = \<lparr>prompts_data = three_tasks, max_concurrent = 5,
     worker = (\<lambda>i. Returned ok_result)\<rparr>"

section \<open>The storybook and the pipeline controller \<open>create_storybook\<close>\<close>

text \<open>
  The parsed story structure, as far as the controller reads it: \<open>story_overview\<close>, the
  dictionaries under \<open>main_character\<close> and \<open>setting\<close>, and whether further keys are
  present. The dictionary is empty (falsy) when it has no key at all.
\<close>

record story_structure =
  story_overview :: "string option"
  main_character_info :: "(string \<times> string) list option"
  setting_info :: "(string \<times> string) list option"
  other_keys :: bool

definition structure_empty :: "story_structure \<Rightarrow> bool" where
  "structure_empty st \<longleftrightarrow>
     story_overview st = None \<and> main_character_info st = None \<and> setting_info st = None \<and>
     \<not> other_keys st"

definition nested_description :: "(string \<times> string) list option \<Rightarrow> string \<Rightarrow> string" where
  \<comment> \<open>\<open>story_structure.get(k, {}).get("description", default)\<close>\<close>
  "nested_description info dflt =
     (case info of
        None \<Rightarrow> dflt
      | Some d \<Rightarrow> (case map_of d ''description'' of None \<Rightarrow> dflt | Some v \<Rightarrow> v))"

text \<open>
  The dictionary stored under \<open>"cover"\<close>, and the dictionaries of the list \<open>"pages"\<close>, which
  have the keys \<open>page_number\<close> and \<open>text\<close> (here \<open>e_text\<close>) in addition. The keys shared with the result
  dictionaries carry the prefix \<open>e_\<close> here: \<open>e_success\<close> is the entry's \<open>"success"\<close>.
\<close>

record cover_entry =
  image_prompt :: string
  e_image_data :: string
  e_image_url :: pyval
  e_success :: bool
  e_seed :: pyval
  e_model :: string
  e_audio_url :: string
  audio_duration :: pyval
  audio_success :: bool

record page_entry = cover_entry +
  page_number :: nat
  e_text :: string

record storybook =
  sb_id :: string
  theme :: string
  main_character :: string
  setting :: string
  story_structure :: story_structure
  character_desc :: string
  scene_desc :: string
  created_at :: string
  pages :: "page_entry list"
  cover :: cover_entry

record generation_stats =
  total_images :: nat
  successful_images :: nat
  failed_images :: nat
  stats_quota_exhausted :: bool

text \<open>
  The attributes of the \<open>StoryBookGenerator\<close> instance that the program assigns:
  \<open>self.current_storybook\<close>, \<open>self.quota_exhausted\<close>, \<open>self.last_quota_check\<close>, whether
  \<open>self.genai_client\<close> is set, the session folder of \<open>self.logger_instance\<close>, and
  \<open>self.style_seed\<close> and \<open>self.character_reference\<close>, which exist only once
  \<open>create_storybook\<close> has run.
\<close>

record generator =
  current_storybook :: "storybook option"
  self_quota_exhausted :: bool
  last_quota_check :: pyval
  genai_client :: bool
  logger_instance :: "string option"
  style_seed :: "pyval option"
  character_reference :: "pyval option"

definition new_generator :: "bool \<Rightarrow> generator" where
  \<comment> \<open>\<open>StoryBookGenerator.__init__\<close>; the argument: whether a Gemini key is configured\<close>
  "new_generator has_key = \<lparr>current_storybook = None, self_quota_exhausted = False,
     last_quota_check = PyNone, genai_client = has_key, logger_instance = None,
     style_seed = None, character_reference = None\<rparr>"

text \<open>\<open>d.get(k, default)\<close> on a dictionary.\<close>

definition dict_get :: "'v dict \<Rightarrow> key \<Rightarrow> 'v \<Rightarrow> 'v" where
  "dict_get d k dflt = (case map_of d k of None \<Rightarrow> dflt | Some v \<Rightarrow> v)"

definition cover_text :: string where
  "cover_text = map char_of [229, 176, 129, 233, 157, 162 :: nat]"

text \<open>
  \<open>generate_all_prompts_parallel\<close>: one task per page and one for the cover;
  \<open>generate_single_prompt\<close> returns \<open>(key, prompt, page_number, is_cover)\<close> for its task
  whether the prompt builder succeeds or not, and the \<open>except\<close> branch of the collecting
  loop appends a tuple with a default prompt. \<open>prompt_of i\<close> is the prompt task \<open>i\<close> ends
  with, \<open>order\<close> the order in which the futures complete: the list is built in that order.
\<close>

definition prompt_tasks :: "string list \<Rightarrow> prompt_info list" where
  "prompt_tasks pgs =
     map (\<lambda>(i, page_text). (Page (i + 1), page_text, i + 1, False)) (enumerate 0 pgs)
     @ [(Cover, cover_text, 0, True)]"

definition generate_all_prompts_parallel ::
  "string list \<Rightarrow> (nat \<Rightarrow> string) \<Rightarrow> nat list \<Rightarrow> prompt_info list" where
  "generate_all_prompts_parallel pgs prompt_of order =
     map (\<lambda>i. case prompt_tasks pgs ! i of
                 (k, page_text, n, is_cover) \<Rightarrow> (k, prompt_of i, n, is_cover)) order"

definition apostrophe :: string where
  "apostrophe = [CHR 0x27]"

definition default_cover_prompt :: string where
  "default_cover_prompt =
     ''scene magical storybook setting subjects friendly character in engaging pose style '' @
     ''A painterly gouache illustration for a children'' @ apostrophe @ ''s book cover. '' @
     ''No text, no words, no letters, no Chinese characters, no English text in the image. '' @
     ''Child-safe content only, no violence, no blood, no scary elements.''"

definition image_default :: api_result where
  "image_default = failure ''Generation failed''"

definition audio_default :: api_result where
  "audio_default = failure ''Audio generation failed''"

definition cover_default :: api_result where
  "cover_default = failure ''Cover generation failed''"

text \<open>The keys every entry takes from its image result and its audio result.\<close>

definition entry_fields :: "string \<Rightarrow> api_result \<Rightarrow> api_result \<Rightarrow> cover_entry" where
  "entry_fields prompt image_result audio_result =
     \<lparr>image_prompt = prompt,
      e_image_data = (case image_data image_result of None \<Rightarrow> '''' | Some d \<Rightarrow> d),
      e_image_url = (case image_url image_result of None \<Rightarrow> PyStr '''' | Some u \<Rightarrow> u),
      e_success = success image_result,
      e_seed = (case seed image_result of None \<Rightarrow> PyStr '''' | Some v \<Rightarrow> v),
      e_model = (case model image_result of None \<Rightarrow> ''midjourney'' | Some m \<Rightarrow> m),
      e_audio_url = (if success audio_result
                     then (case audio_url audio_result of None \<Rightarrow> '''' | Some u \<Rightarrow> u) else ''''),
      audio_duration = (if success audio_result
                        then (case duration audio_result of None \<Rightarrow> PyNum 0 | Some d \<Rightarrow> d)
                        else PyNum 0),
      audio_success = success audio_result\<rparr>"

text \<open>
  The loop \<open>for i, page_text in enumerate(pages)\<close> of the assembly, from index \<open>i\<close> on;
  \<open>prompts_data[i][1]\<close> raises IndexError beyond the end of the list.
\<close>

fun build_pages ::
  "prompt_info list \<Rightarrow> api_result dict \<Rightarrow> api_result dict \<Rightarrow> nat \<Rightarrow> string list
     \<Rightarrow> page_entry list outcome" where
  "build_pages prompts all_results audio_results i [] = Returned []"
| "build_pages prompts all_results audio_results i (page_text # rest) =
     (let image_result = dict_get all_results (Page (i + 1)) image_default;
          audio_result = dict_get audio_results (Page (i + 1)) audio_default
      in if i < length prompts
         then (case build_pages prompts all_results audio_results (i + 1) rest of
                 Raised e \<Rightarrow> Raised e
               | Returned ps \<Rightarrow>
                   Returned (cover_entry.extend
                       (entry_fields (fst (snd (prompts ! i))) image_result audio_result)
                       (page_entry.fields (i + 1) page_text) # ps))
         else Raised ''list index out of range'')"

definition build_cover :: "prompt_info list \<Rightarrow> api_result dict \<Rightarrow> api_result dict \<Rightarrow> cover_entry" where
  "build_cover prompts all_results audio_results =
     (let cover_result = dict_get all_results Cover cover_default;
          cover_audio = dict_get audio_results Cover audio_default;
          cover_prompt = (case filter (\<lambda>(k, prompt, n, is_cover). is_cover) prompts of
                            [] \<Rightarrow> default_cover_prompt
                          | (k, prompt, n, is_cover) # _ \<Rightarrow> prompt)
      in entry_fields cover_prompt cover_result cover_audio)"

definition make_stats :: "api_result dict \<Rightarrow> generation_stats" where
  "make_stats all_results =
     (let successful = length (filter (\<lambda>(k, r). success r) all_results);
          total = length all_results
      in \<lparr>total_images = total, successful_images = successful,
          failed_images = total - successful,
          stats_quota_exhausted =
            list_ex (\<lambda>(k, r). error_type r = Some ''quota_exhausted'') all_results\<rparr>)"

text \<open>
  What the stages do in one run: the two guarded single calls return a dictionary with
  \<open>success\<close> true (\<open>StageOk\<close>, with the structure, or the pages and the story id) or false
  (\<open>StageFailed\<close>), or raise; \<open>image_batch\<close> and \<open>audio_batch\<close> are the dictionaries that
  \<open>generate_images_parallel(prompts_data, 5)\<close> and \<open>generate_audio_parallel\<close> return.
\<close>

datatype 'a stage_result = StageOk 'a | StageFailed api_result

record environment =
  session_folder :: string
  structure_call :: "story_structure stage_result outcome"
  pages_call :: "(string list \<times> string) stage_result outcome"
  prompt_of :: "nat \<Rightarrow> string"
  prompt_order :: "nat list"
  image_batch :: "api_result dict"
  audio_batch :: "api_result dict"
  timestamp :: string

datatype stage_call = GenerateStructure | GeneratePages | PromptBatch | ImageBatch | AudioBatch

text \<open>
  The result of a run: the failed dictionary of a stage, returned as it is, or the
  dictionary with the storybook, the session folder and the statistics.
\<close>

datatype run_result = Aborted api_result | Created storybook string generation_stats

record story_request =
  req_theme :: string
  req_main_character :: string
  req_setting :: string
  req_character_desc :: "string option"
  req_scene_desc :: "string option"

definition or_empty :: "string option \<Rightarrow> string" where
  \<comment> \<open>\<open>x or ""\<close>\<close>
  "or_empty x = (case x of None \<Rightarrow> '''' | Some v \<Rightarrow> v)"

definition create_storybook ::
  "environment \<Rightarrow> story_request \<Rightarrow> generator
     \<Rightarrow> run_result outcome \<times> generator \<times> stage_call list" where
  "create_storybook env req g =
     (let g1 = g\<lparr>logger_instance := Some (session_folder env), style_seed := Some PyNone,
                 character_reference := Some PyNone\<rparr>
      in case structure_call env of
           Raised e \<Rightarrow> (Raised e, g1, [GenerateStructure])
         | Returned (StageFailed structure_result) \<Rightarrow>
             (Returned (Aborted structure_result), g1, [GenerateStructure])
         | Returned (StageOk structure) \<Rightarrow>
             (case pages_call env of
                Raised e \<Rightarrow> (Raised e, g1, [GenerateStructure, GeneratePages])
              | Returned (StageFailed pages_result) \<Rightarrow>
                  (Returned (Aborted pages_result), g1, [GenerateStructure, GeneratePages])
              | Returned (StageOk (pgs, story_id)) \<Rightarrow>
                  (let prompts = generate_all_prompts_parallel pgs (prompt_of env) (prompt_order env);
                       all_results = image_batch env;
                       audio_results = audio_batch env;
                       calls = [GenerateStructure, GeneratePages, PromptBatch, ImageBatch, AudioBatch]
                   in case build_pages prompts all_results audio_results 0 pgs of
                        Raised e \<Rightarrow> (Raised e, g1, calls)
                      | Returned page_list \<Rightarrow>
                          (let storybook_data =
                                 \<lparr>sb_id = story_id, theme = req_theme req,
                                  main_character = req_main_character req,
                                  setting = req_setting req, story_structure = structure,
                                  character_desc = nested_description (main_character_info structure)
                                                     (or_empty (req_character_desc req)),
                                  scene_desc = nested_description (setting_info structure)
                                                 (or_empty (req_scene_desc req)),
                                  created_at = timestamp env, pages = page_list,
                                  cover = build_cover prompts all_results audio_results\<rparr>
                           in (Returned (Created storybook_data (session_folder env)
                                           (make_stats all_results)),
                               g1\<lparr>current_storybook := Some storybook_data\<rparr>, calls)))))"

text \<open>The entry the assembly builds for page \<open>n\<close> with text \<open>t\<close> and prompt \<open>prompt\<close>.\<close>

definition page_data ::
  "api_result dict \<Rightarrow> api_result dict \<Rightarrow> string \<Rightarrow> nat \<Rightarrow> string \<Rightarrow> page_entry" where
  "page_data all_results audio_results prompt n t =
     cover_entry.extend
       (entry_fields prompt (dict_get all_results (Page n) image_default)
          (dict_get audio_results (Page n) audio_default))
       (page_entry.fields n t)"

definition begun :: "generator \<Rightarrow> environment \<Rightarrow> generator" where
  "begun g env = g\<lparr>logger_instance := Some (session_folder env), style_seed := Some PyNone,
     character_reference := Some PyNone\<rparr>"

definition all_stages :: "stage_call list" where
  "all_stages = [GenerateStructure, GeneratePages, PromptBatch, ImageBatch, AudioBatch]"

definition plain_structure :: story_structure where
  "plain_structure = \<lparr>story_overview = Some ''a tale'', main_character_info = None,
     setting_info = None, other_keys = False\<rparr>"

definition plain_request :: story_request where
  "plain_request = \<lparr>req_theme = ''friendship'', req_main_character = ''a fox'',
     req_setting = ''a forest'', req_character_desc = None, req_scene_desc = None\<rparr>"

definition partial_env :: environment where
  "partial_env = \<lparr>session_folder = ''logs/session'',
     structure_call = Returned (StageOk plain_structure),
     pages_call = Returned (StageOk ([''one'', ''two''], ''id-1'')),
     prompt_of = (\<lambda>i. ''prompt''), prompt_order = [2, 0, 1],
     image_batch = [(Page 1, quota_result)], audio_batch = [(Cover, failure ''no key'')],
     timestamp = ''2025''\<rparr>"

definition ok_audio :: api_result where
  "ok_audio = \<lparr>success = True, error = None, error_type = None, image_data = None,
     image_url = None, seed = None, model = None, audio_url = Some ''/static/audio/audio_page_1.mp3'',
     duration = Some (PyNum 2)\<rparr>"

definition mixed_env :: environment where
  "mixed_env = \<lparr>session_folder = ''logs/session'',
     structure_call = Returned (StageOk plain_structure),
     pages_call = Returned (StageOk ([''one'', ''two''], ''id-1'')),
     prompt_of = (\<lambda>i. ''prompt''), prompt_order = [1, 2, 0],
     image_batch = [(Page 1, ok_result), (Page 2, failure ''No images generated'')],
     audio_batch = [(Cover, failure ''no key''), (Page 1, ok_audio)],
     timestamp = ''2025''\<rparr>"

definition structure_failed_env :: environment where
  "structure_failed_env = partial_env\<lparr>structure_call := Returned (StageFailed (failure ''Invalid API key''))\<rparr>"

definition pages_failed_env :: environment where
  "pages_failed_env = partial_env\<lparr>pages_call := Returned (StageFailed (failure ''Invalid API key''))\<rparr>"

section \<open>Regeneration \<open>regenerate_failed_images\<close>\<close>

text \<open>An element of \<open>pages_to_regenerate\<close>: \<open>(key, page_number, text, is_cover)\<close>.\<close>

type_synonym page_info = "key \<times> nat \<times> string \<times> bool"

text \<open>\<open>failed_page_numbers is None or n in failed_page_numbers\<close>\<close>

definition targeted :: "nat list option \<Rightarrow> nat \<Rightarrow> bool" where
  "targeted failed_page_numbers n =
     (case failed_page_numbers of None \<Rightarrow> True | Some ns \<Rightarrow> n \<in> set ns)"

definition pages_to_regenerate :: "storybook \<Rightarrow> nat list option \<Rightarrow> page_info list" where
  "pages_to_regenerate sb failed_page_numbers =
     map (\<lambda>pg. (Page (page_number pg), page_number pg, e_text pg, False))
       (filter (\<lambda>pg. \<not> e_success pg \<and> targeted failed_page_numbers (page_number pg)) (pages sb))
     @ (if \<not> e_success (cover sb) \<and> targeted failed_page_numbers 0
        then [(Cover, 0, cover_text, True)] else [])"

text \<open>
  The environment of one regeneration: what the prompt builder and the retry-wrapped
  \<open>self.generate_image_gemini\<close> do for the \<open>k\<close>-th element of \<open>pages_to_regenerate\<close>.
\<close>

record regen_env =
  build_prompt :: "nat \<Rightarrow> string outcome"
  generate_image :: "nat \<Rightarrow> api_result outcome"

datatype regen_call = PromptCall key | ImageCall key

text \<open>
  The first loop: for each element in turn, the prompt is built and the image call is
  made and awaited before the next element is looked at; an exception ends the function.
\<close>

fun regenerate_loop ::
  "regen_env \<Rightarrow> nat \<Rightarrow> page_info list \<Rightarrow> api_result dict
     \<Rightarrow> api_result dict outcome \<times> regen_call list" where
  "regenerate_loop env k [] regenerated_results = (Returned regenerated_results, [])"
| "regenerate_loop env k ((ky, n, t, is_cover) # rest) regenerated_results =
     (case build_prompt env k of
        Raised e \<Rightarrow> (Raised e, [PromptCall ky])
      | Returned prompt \<Rightarrow>
          (case generate_image env k of
             Raised e \<Rightarrow> (Raised e, [PromptCall ky, ImageCall ky])
           | Returned result \<Rightarrow>
               (let (out, calls) =
                      regenerate_loop env (k + 1) rest (AList.update ky result regenerated_results)
                in (out, PromptCall ky # ImageCall ky # calls))))"

text \<open>\<open>entry.update({"image_data": ..., "success": True, "model": ...})\<close>\<close>

definition regenerated_fields ::
  "api_result \<Rightarrow> 'a cover_entry_scheme \<Rightarrow> 'a cover_entry_scheme" where
  "regenerated_fields result e =
     e\<lparr>e_image_data := (case image_data result of None \<Rightarrow> '''' | Some d \<Rightarrow> d),
       e_success := True,
       e_model := (case model result of None \<Rightarrow> ''gemini-imagen'' | Some m \<Rightarrow> m)\<rparr>"

text \<open>
  \<open>for page in storybook_data["pages"]: if page["page_number"] == n: page.update(...); break\<close>
\<close>

fun update_first_page :: "nat \<Rightarrow> api_result \<Rightarrow> page_entry list \<Rightarrow> page_entry list" where
  "update_first_page n result [] = []"
| "update_first_page n result (pg # pgs) =
     (if page_number pg = n then regenerated_fields result pg # pgs
      else pg # update_first_page n result pgs)"

text \<open>The second loop, which writes the successful results into the storybook and counts them.\<close>

fun apply_updates ::
  "page_info list \<Rightarrow> api_result dict \<Rightarrow> storybook \<Rightarrow> nat \<Rightarrow> (storybook \<times> nat) outcome" where
  "apply_updates [] regenerated_results sb successful = Returned (sb, successful)"
| "apply_updates ((ky, n, t, is_cover) # rest) regenerated_results sb successful =
     (case map_of regenerated_results ky of
        None \<Rightarrow> Raised ''KeyError''
      | Some result \<Rightarrow>
          if success result
          then (if is_cover
                then apply_updates rest regenerated_results
                       (sb\<lparr>cover := regenerated_fields result (cover sb)\<rparr>) (successful + 1)
                else apply_updates rest regenerated_results
                       (sb\<lparr>pages := update_first_page n result (pages sb)\<rparr>) (successful + 1))
          else apply_updates rest regenerated_results sb successful)"

text \<open>
  The dictionaries the function returns: the two failures (no storybook data, no story
  structure), the success without work, and the success with the counts and the updated
  storybook, which is the argument object itself, updated in place.
\<close>

datatype regen_result = NoData | NoStructure | NothingToRegenerate | Regenerated nat nat storybook

definition regenerate_failed_images ::
  "regen_env \<Rightarrow> storybook option \<Rightarrow> nat list option \<Rightarrow> regen_result outcome \<times> regen_call list" where
  "regenerate_failed_images env storybook_data failed_page_numbers =
     (case storybook_data of
        None \<Rightarrow> (Returned NoData, [])
      | Some sb \<Rightarrow>
          if structure_empty (story_structure sb) then (Returned NoStructure, [])
          else (let todo = pages_to_regenerate sb failed_page_numbers
                in if todo = [] then (Returned NothingToRegenerate, [])
                   else (case regenerate_loop env 0 todo [] of
                           (Raised e, calls) \<Rightarrow> (Raised e, calls)
                         | (Returned regenerated_results, calls) \<Rightarrow>
                             (case apply_updates todo regenerated_results sb 0 of
                                Raised e \<Rightarrow> (Raised e, calls)
                              | Returned (sb', successful) \<Rightarrow>
                                  (Returned (Regenerated successful (length todo) sb'), calls)))))"

section \<open>The operations on the generator and the quota status\<close>

text \<open>
  The request handlers that reach the generator: \<open>api_generate_story\<close> and
  \<open>api_generate_story_from_chat\<close> run \<open>create_storybook\<close>; \<open>api_regenerate_images\<close> runs the
  regeneration on the current storybook and stores the updated one; the others
  (\<open>api_check_quota_status\<close>, \<open>api_export_pdf\<close>, \<open>api_get_current_storybook\<close>,
  \<open>api_text_to_speech\<close>) assign no attribute.
\<close>

datatype operation =
    CreateStorybook environment story_request
  | RegenerateImages regen_env "nat list option"
  | CheckQuotaStatus
  | ExportPdf
  | GetCurrentStorybook
  | TextToSpeech

fun apply_operation :: "operation \<Rightarrow> generator \<Rightarrow> generator" where
  "apply_operation (CreateStorybook env req) g = fst (snd (create_storybook env req g))"
| "apply_operation (RegenerateImages env failed_pages) g =
     (case current_storybook g of
        None \<Rightarrow> g
      | Some sb \<Rightarrow>
          (case fst (regenerate_failed_images env (Some sb) failed_pages) of
             Returned (Regenerated successful attempted sb') \<Rightarrow> g\<lparr>current_storybook := Some sb'\<rparr>
           | _ \<Rightarrow> g))"
| "apply_operation CheckQuotaStatus g = g"
| "apply_operation ExportPdf g = g"
| "apply_operation GetCurrentStorybook g = g"
| "apply_operation TextToSpeech g = g"

record quota_status =
  gemini_available :: bool
  status_quota_exhausted :: bool
  last_check :: pyval

definition api_check_quota_status :: "generator \<Rightarrow> quota_status" where
  "api_check_quota_status g = \<lparr>gemini_available = genai_client g,
     status_quota_exhausted = self_quota_exhausted g, last_check = last_quota_check g\<rparr>"

definition run_operations :: "operation list \<Rightarrow> generator \<Rightarrow> generator" where
  "run_operations ops g = foldl (\<lambda>g' op. apply_operation op g') g ops"

definition failed_page :: "nat \<Rightarrow> page_entry" where
  "failed_page n = page_data [] [] ''prompt'' n ''words''"

definition good_page :: "nat \<Rightarrow> page_entry" where
  "good_page n = page_data [(Page n, ok_result)] [] ''prompt'' n ''words''"

definition sample_book :: storybook where
  "sample_book = \<lparr>sb_id = ''id-1'', theme = ''friendship'', main_character = ''a fox'',
     setting = ''a forest'', story_structure = plain_structure, character_desc = '''',
     scene_desc = '''', created_at = ''2025'',
     pages = [good_page 1, failed_page 2, failed_page 3],
     cover = entry_fields ''cover prompt'' cover_default audio_default\<rparr>"

definition sample_regen_env :: regen_env where
  "sample_regen_env = \<lparr>build_prompt = (\<lambda>k. Returned ''new prompt''),
     generate_image = (\<lambda>k. if k = 0 then Returned ok_result else Returned quota_result)\<rparr>"

definition regenerated_book :: storybook where
  "regenerated_book = sample_book\<lparr>pages := [good_page 1, regenerated_fields ok_result (failed_page 2),
     failed_page 3]\<rparr>"

text \<open>The page numbers that \<open>pages_to_regenerate\<close> names, and whether it names the cover.\<close>

definition page_targets :: "page_info list \<Rightarrow> nat set" where
  "page_targets todo = {n. \<exists>ky t. (ky, n, t, False) \<in> set todo}"

definition names_cover :: "page_info list \<Rightarrow> bool" where
  "names_cover todo = list_ex (\<lambda>(ky, n, t, is_cover). is_cover) todo"

definition calls_of :: "page_info list \<Rightarrow> regen_call list" where
  "calls_of todo = concat (map (\<lambda>(ky, n, t, is_cover). [PromptCall ky, ImageCall ky]) todo)"
section \<open>Properties of the retry decorator\<close>

lemma invocations_simps [simp]:
  "invocations [] = 0"
  "invocations (Invoke a # effs) = Suc (invocations effs)"
  "invocations (Sleep w j # effs) = invocations effs"
  by (simp_all add: invocations_def)

lemma retry_loop_invocations:
  "invocations (snd (retry_loop c f as last_exception)) \<le> length as"
proof (induction as arbitrary: last_exception)
  case Nil
  show ?case by (simp split: option.split)
next
  case (Cons a as)
  show ?case
  proof (cases "f a")
    case (Returned r)
    show ?thesis
    proof (cases r)
      case (Std d)
      with Returned Cons.IH [of last_exception] show ?thesis
        by (simp add: split_beta)
    next
      case (NonStd v)
      with Returned show ?thesis by simp
    qed
  next
    case (Raised e)
    with Cons.IH [of "Some e"] show ?thesis
      by (simp add: split_beta)
  qed
qed

lemma retry_loop_first_success:
  "succeeded (f a) \<Longrightarrow> retry_loop c f (a # as) last_exception = (f a, [Invoke a])"
  by (cases "f a" rule: succeeded.cases) auto

lemma retry_loop_head:
  "\<exists>res effs. retry_loop c f (a # as) last_exception = (res, Invoke a # effs)"
  by (auto split: outcome.split ret.split prod.split)

lemma attempts_unfold: "[0 ..< max_retries c + 1] = 0 # [1 ..< max_retries c + 1]"
  using upt_conv_Cons [of 0 "max_retries c + 1"] by simp

lemma should_retry_exception_iff: "should_retry_exception e \<longleftrightarrow> spec_classify e = Transient"
  by (simp add: should_retry_exception_def spec_classify_def Let_def)

lemma result_keywords_cases:
  "any_keyword result_keywords s \<Longrightarrow> any_keyword exception_keywords s \<or> str_contains ''5'' s"
  by (auto simp: any_keyword_def result_keywords_def exception_keywords_def)

text \<open>
  C1. One call of the wrapped function invokes the unit of work at most
  \<open>max_retries + 1\<close> times, and exactly once (returning what that invocation
  returned) when the first invocation succeeds.
\<close>

theorem api_retry_invocation_bound:
  "invocations (snd (api_retry c f)) \<le> max_retries c + 1 \<and>
   (succeeded (f 0) \<longrightarrow>
      invocations (snd (api_retry c f)) = 1 \<and> fst (api_retry c f) = f 0)"
proof
  show "invocations (snd (api_retry c f)) \<le> max_retries c + 1"
    using retry_loop_invocations [of c f "[0 ..< max_retries c + 1]" None]
    by (simp add: api_retry_def)
next
  show "succeeded (f 0) \<longrightarrow>
      invocations (snd (api_retry c f)) = 1 \<and> fst (api_retry c f) = f 0"
  proof
    assume "succeeded (f 0)"
    then have "api_retry c f = (f 0, [Invoke 0])"
      unfolding api_retry_def attempts_unfold by (rule retry_loop_first_success)
    then show "invocations (snd (api_retry c f)) = 1 \<and> fst (api_retry c f) = f 0"
      by simp
  qed
qed

theorem api_retry_invocation_bound_witness:
  "succeeded (Returned (Std ok_result)) \<and>
   invocations (snd (api_retry default_config (\<lambda>a. Returned (Std ok_result)))) = 1 \<and>
   fst (api_retry default_config (\<lambda>a. Returned (Std ok_result))) = Returned (Std ok_result)"
proof -
  have s: "succeeded (Returned (Std ok_result))" by (simp add: ok_result_def)
  show ?thesis
    using s api_retry_invocation_bound [of default_config "\<lambda>a. Returned (Std ok_result)"]
    by simp
qed

text \<open>The wrapper, attempt by attempt.\<close>

lemma retry_loop_any_last:
  "as \<noteq> [] \<Longrightarrow> max_retries c \<le> last as \<Longrightarrow> retry_loop c f as l = retry_loop c f as None"
proof (induction as arbitrary: l)
  case Nil
  then show ?case by simp
next
  case (Cons a as)
  show ?case
  proof (cases "as = []")
    case True
    with Cons.prems show ?thesis
      by (auto split: outcome.split ret.split)
  next
    case False
    with Cons.prems have "max_retries c \<le> last as" by simp
    from Cons.IH [OF False this] have ih: "retry_loop c f as l' = retry_loop c f as None" for l'
      by blast
    show ?thesis
      using ih [of l] ih [of "Some e" for e]
      by (simp split: outcome.split ret.split)
  qed
qed

lemma retry_loop_stop:
  "\<not> retried c k out \<Longrightarrow> f k = out \<Longrightarrow> retry_loop c f (k # rest) l = (out, [Invoke k])"
  by (auto simp: retried_def split: outcome.splits ret.splits)

lemma retry_loop_go_on:
  assumes "retried c k out" and "f k = out" and "rest \<noteq> []" and "max_retries c \<le> last rest"
  shows "retry_loop c f (k # rest) l =
     (fst (retry_loop c f rest None),
      Invoke k # Sleep (wait_time c k) (jitter c) # snd (retry_loop c f rest None))"
proof -
  have ih: "retry_loop c f rest l' = retry_loop c f rest None" for l'
    using retry_loop_any_last [OF assms(3,4)] by blast
  show ?thesis
    using assms(1,2) ih [of l] ih [of "Some e" for e]
    by (auto simp: retried_def split_beta split: outcome.splits ret.splits)
qed

lemma attempts_from:
  "k \<le> m \<Longrightarrow> [k ..< Suc m] = k # [Suc k ..< Suc m]"
  by (simp add: upt_conv_Cons del: upt_Suc)

lemma attempts_rest:
  assumes "k < m"
  shows "[Suc k ..< Suc m] \<noteq> []" and "m \<le> last [Suc k ..< Suc m]"
  using assms by simp_all

lemma trace_to_Suc:
  "trace_to c 0 (Suc k) = trace_to c 0 k @ [Invoke k, Sleep (wait_time c k) (jitter c)]"
  by (simp add: trace_to_def)

lemma retry_loop_prefix:
  assumes "\<forall>a<k. retried c a (f a)" and "k \<le> max_retries c"
  shows "retry_loop c f [0 ..< Suc (max_retries c)] None =
     (fst (retry_loop c f [k ..< Suc (max_retries c)] None),
      trace_to c 0 k @ snd (retry_loop c f [k ..< Suc (max_retries c)] None))"
  using assms
proof (induction k)
  case 0
  show ?case by (simp add: trace_to_def del: upt_Suc)
next
  case (Suc k)
  then have ih: "retry_loop c f [0 ..< Suc (max_retries c)] None =
     (fst (retry_loop c f [k ..< Suc (max_retries c)] None),
      trace_to c 0 k @ snd (retry_loop c f [k ..< Suc (max_retries c)] None))"
    by simp
  have r: "retried c k (f k)" and k: "k < max_retries c"
    using Suc.prems by simp_all
  have "retry_loop c f (k # [Suc k ..< Suc (max_retries c)]) None =
     (fst (retry_loop c f [Suc k ..< Suc (max_retries c)] None),
      Invoke k # Sleep (wait_time c k) (jitter c)
        # snd (retry_loop c f [Suc k ..< Suc (max_retries c)] None))"
    by (rule retry_loop_go_on [of c k "f k" f "[Suc k ..< Suc (max_retries c)]" None,
          OF r refl attempts_rest [OF k]])
  then have "retry_loop c f [k ..< Suc (max_retries c)] None =
     (fst (retry_loop c f [Suc k ..< Suc (max_retries c)] None),
      Invoke k # Sleep (wait_time c k) (jitter c)
        # snd (retry_loop c f [Suc k ..< Suc (max_retries c)] None))"
    using attempts_from [of k "max_retries c"] k by simp
  with ih show ?case
    unfolding trace_to_Suc by simp
qed

lemma api_retry_Suc: "api_retry c f = retry_loop c f [0 ..< Suc (max_retries c)] None"
  by (simp add: api_retry_def del: upt_Suc)

lemma api_retry_stops_at:
  assumes "k \<le> max_retries c" and "\<forall>a<k. retried c a (f a)" and "\<not> retried c k (f k)"
  shows "api_retry c f = (f k, trace_to c 0 k @ [Invoke k])"
proof -
  have "retry_loop c f (k # [Suc k ..< Suc (max_retries c)]) None = (f k, [Invoke k])"
    using retry_loop_stop [of c k "f k" f] assms(3) by blast
  then have "retry_loop c f [k ..< Suc (max_retries c)] None = (f k, [Invoke k])"
    using attempts_from [OF assms(1)] by simp
  with retry_loop_prefix [OF assms(2,1)] show ?thesis
    unfolding api_retry_Suc by simp
qed

lemma api_retry_goes_on:
  assumes "\<forall>a<k. retried c a (f a)" and "retried c k (f k)"
  shows "\<exists>res effs. api_retry c f =
     (res, trace_to c 0 k @ Invoke k # Sleep (wait_time c k) (jitter c) # Invoke (Suc k) # effs)"
proof -
  from assms(2) have k: "k < max_retries c"
    by (simp add: retried_def)
  then have k1: "Suc k \<le> max_retries c" by simp
  obtain res effs where
    "retry_loop c f (Suc k # [Suc (Suc k) ..< Suc (max_retries c)]) None = (res, Invoke (Suc k) # effs)"
    using retry_loop_head by blast
  then have h: "retry_loop c f [Suc k ..< Suc (max_retries c)] None = (res, Invoke (Suc k) # effs)"
    using attempts_from [OF k1] by simp
  have "retry_loop c f (k # [Suc k ..< Suc (max_retries c)]) None =
     (fst (retry_loop c f [Suc k ..< Suc (max_retries c)] None),
      Invoke k # Sleep (wait_time c k) (jitter c)
        # snd (retry_loop c f [Suc k ..< Suc (max_retries c)] None))"
    by (rule retry_loop_go_on [of c k "f k" f "[Suc k ..< Suc (max_retries c)]" None,
          OF assms(2) refl attempts_rest [OF k]])
  then have g: "retry_loop c f [k ..< Suc (max_retries c)] None =
     (res, Invoke k # Sleep (wait_time c k) (jitter c) # Invoke (Suc k) # effs)"
    using attempts_from [of k "max_retries c"] k h by simp
  have "k \<le> max_retries c" using k by simp
  from retry_loop_prefix [OF assms(1) this] g show ?thesis
    unfolding api_retry_Suc by simp
qed

lemma invocations_append [simp]: "invocations (xs @ ys) = invocations xs + invocations ys"
  by (simp add: invocations_def)

lemma invocations_trace: "invocations (trace_to c 0 k @ [Invoke k]) = Suc k"
  by (induction k) (simp_all add: trace_to_def)

text \<open>
  C6, as stated, fails: a raised exception whose text names the quota (classified
  QuotaExhausted) is not retried although \<open>retry_on_quota\<close> is true and retries remain,
  and a raised json/parse exception (classified MalformedResponse) is not retried either.
\<close>

theorem exception_quota_not_retried_counterexample:
  "retry_on_quota default_config \<and> 0 < max_retries default_config \<and>
   spec_classify ''429 RESOURCE_EXHAUSTED. You exceeded your current quota'' = QuotaExhausted \<and>
   api_retry default_config (\<lambda>a. Raised ''429 RESOURCE_EXHAUSTED. You exceeded your current quota'')
     = (Raised ''429 RESOURCE_EXHAUSTED. You exceeded your current quota'', [Invoke 0]) \<and>
   spec_classify ''Failed to parse JSON response'' = MalformedResponse \<and>
   api_retry default_config (\<lambda>a. Raised ''Failed to parse JSON response'')
     = (Raised ''Failed to parse JSON response'', [Invoke 0])"
  by code_simp

text \<open>
  C6, amended. When the unit of work raises an exception, in whichever attempt, the
  decision is taken on the seven transient keywords alone and \<open>retry_on_quota\<close> plays no
  part: an exception classified QuotaExhausted, MalformedResponse or Fatal is propagated
  by that attempt with no further invocation; a Transient one is followed by a sleep and
  a further invocation whenever a retry remains, and is propagated when none remains.
\<close>

theorem api_retry_exception_policy:
  assumes "k \<le> max_retries c" and "\<forall>a<k. retried c a (f a)" and "f k = Raised e"
  shows "(spec_classify e \<noteq> Transient \<or> k = max_retries c \<longrightarrow>
            api_retry c f = (Raised e, trace_to c 0 k @ [Invoke k])) \<and>
         (spec_classify e = Transient \<and> k < max_retries c \<longrightarrow>
            (\<exists>res effs. api_retry c f =
               (res, trace_to c 0 k @ Invoke k # Sleep (wait_time c k) (jitter c)
                       # Invoke (Suc k) # effs)))"
proof (intro conjI impI)
  assume "spec_classify e \<noteq> Transient \<or> k = max_retries c"
  then have "\<not> retried c k (f k)"
    using assms(3) by (auto simp: retried_def should_retry_exception_iff)
  from api_retry_stops_at [OF assms(1,2) this] show
    "api_retry c f = (Raised e, trace_to c 0 k @ [Invoke k])"
    using assms(3) by simp
next
  assume "spec_classify e = Transient \<and> k < max_retries c"
  then have "retried c k (f k)"
    using assms(3) by (simp add: retried_def should_retry_exception_iff)
  from api_retry_goes_on [OF assms(2) this] show
    "\<exists>res effs. api_retry c f =
       (res, trace_to c 0 k @ Invoke k # Sleep (wait_time c k) (jitter c) # Invoke (Suc k) # effs)" .
qed

theorem api_retry_exception_policy_witness:
  "retried default_config 0 (flaky_unit 0) \<and> retried default_config 1 (flaky_unit 1) \<and>
   flaky_unit 2 = Raised ''quota exceeded'' \<and> spec_classify ''quota exceeded'' \<noteq> Transient \<and>
   api_retry default_config flaky_unit
     = (Raised ''quota exceeded'', [Invoke 0, Sleep 1 True, Invoke 1, Sleep 2 True, Invoke 2]) \<and>
   flaky_unit 1 = Raised ''Connection reset by peer'' \<and>
   spec_classify ''Connection reset by peer'' = Transient \<and>
   (\<exists>res effs. api_retry default_config flaky_unit =
      (res, [Invoke 0, Sleep 1 True, Invoke 1, Sleep 2 True, Invoke 2] @ effs))"
proof -
  have r: "retried default_config 0 (flaky_unit 0)" "retried default_config 1 (flaky_unit 1)"
    by code_simp+
  have f: "flaky_unit 2 = Raised ''quota exceeded''" "flaky_unit 1 = Raised ''Connection reset by peer''"
    by (simp_all add: flaky_unit_def)
  have q: "spec_classify ''quota exceeded'' \<noteq> Transient"
    and t: "spec_classify ''Connection reset by peer'' = Transient"
    by code_simp+
  have m: "(2::nat) \<le> max_retries default_config" "(1::nat) \<le> max_retries default_config"
    "(1::nat) < max_retries default_config"
    by (simp_all add: default_config_def)
  have a2: "\<forall>a<2. retried default_config a (flaky_unit a)"
    using r by (simp add: less_Suc_eq numeral_2_eq_2)
  have a1: "\<forall>a<1. retried default_config a (flaky_unit a)"
    using r by simp
  have tr: "trace_to default_config 0 2 @ [Invoke 2]
      = [Invoke 0, Sleep 1 True, Invoke 1, Sleep 2 True, Invoke 2]"
    "trace_to default_config 0 1 @ Invoke 1 # Sleep (wait_time default_config 1) (jitter default_config)
       # Invoke (Suc 1) # effs = [Invoke 0, Sleep 1 True, Invoke 1, Sleep 2 True, Invoke 2] @ effs" for effs
    by (simp_all add: trace_to_def wait_time_def default_config_def upt_conv_Cons numeral_2_eq_2)
  have 1: "api_retry default_config flaky_unit
     = (Raised ''quota exceeded'', [Invoke 0, Sleep 1 True, Invoke 1, Sleep 2 True, Invoke 2])"
    using api_retry_exception_policy [OF m(1) a2 f(1)] q unfolding tr by blast
  have 2: "\<exists>res effs. api_retry default_config flaky_unit =
      (res, [Invoke 0, Sleep 1 True, Invoke 1, Sleep 2 True, Invoke 2] @ effs)"
    using api_retry_exception_policy [OF m(2) a1 f(2)] t m(3) unfolding tr by blast
  show ?thesis
    by (intro conjI) (rule r f q t 1 2)+
qed

text \<open>
  C7, as stated, fails: the keyword list for returned failures contains the single
  character \<open>5\<close>, so a returned failure whose message holds a 5 that is no 5xx status,
  no listed keyword, no quota signal and no json/parse keyword (classified Fatal) is
  retried until the retries are used up.
\<close>

theorem fatal_result_retried_counterexample:
  "spec_classify ''invalid argument: got 5 images'' = Fatal \<and>
   \<not> has_5xx_status ''invalid argument: got 5 images'' \<and>
   error_type (failure ''invalid argument: got 5 images'') \<noteq> Some ''quota_exhausted'' \<and>
   invocations (snd (api_retry default_config
      (\<lambda>a. Returned (Std (failure ''invalid argument: got 5 images''))))) = 4"
  by code_simp

text \<open>
  C7, amended. A failure whose lowercased message contains none of the seven transient
  keywords, not the character 5, no \<open>quota\<close> (and whose \<open>error_type\<close> is not
  \<open>quota_exhausted\<close>) and no \<open>json\<close>/\<open>parse\<close> is never retried, whatever
  \<open>max_retries\<close> is and in whichever attempt it occurs: raised, it is propagated by that
  attempt; returned, it is returned by that attempt; no further invocation follows.
\<close>

theorem api_retry_fatal_not_retried:
  assumes "spec_classify m = Fatal" and "\<not> str_contains ''5'' (lower m)"
    and "k \<le> max_retries c" and "\<forall>a<k. retried c a (f a)"
  shows "(f k = Raised m \<longrightarrow> api_retry c f = (Raised m, trace_to c 0 k @ [Invoke k])) \<and>
         (f k = Returned (Std r) \<and> \<not> success r \<and> error_text r = m \<and>
            error_type_text r \<noteq> ''quota_exhausted'' \<longrightarrow>
          api_retry c f = (Returned (Std r), trace_to c 0 k @ [Invoke k])) \<and>
         (f k = Raised m \<or>
          f k = Returned (Std r) \<and> \<not> success r \<and> error_text r = m \<and>
            error_type_text r \<noteq> ''quota_exhausted'' \<longrightarrow>
          invocations (snd (api_retry c f)) = Suc k)"
proof -
  have raised: "api_retry c f = (Raised m, trace_to c 0 k @ [Invoke k])" if "f k = Raised m"
  proof -
    have "\<not> retried c k (f k)"
      using that assms(1) by (simp add: retried_def should_retry_exception_iff)
    from api_retry_stops_at [OF assms(3,4) this] that show ?thesis by simp
  qed
  have returned: "api_retry c f = (Returned (Std r), trace_to c 0 k @ [Invoke k])"
    if a: "f k = Returned (Std r) \<and> \<not> success r \<and> error_text r = m \<and>
            error_type_text r \<noteq> ''quota_exhausted''"
  proof -
    have kw: "\<not> any_keyword exception_keywords (lower m)"
      and q: "\<not> str_contains ''quota'' (lower m)"
      and j: "\<not> str_contains ''json'' (lower m)" "\<not> str_contains ''parse'' (lower m)"
      using assms(1) by (auto simp: spec_classify_def Let_def split: if_splits)
    have "\<not> any_keyword result_keywords (lower m)"
      using kw assms(2) result_keywords_cases by blast
    then have "\<not> should_retry_result c r"
      using a q j by (simp add: should_retry_result_def Let_def)
    then have "\<not> retried c k (f k)"
      using a by (simp add: retried_def)
    from api_retry_stops_at [OF assms(3,4) this] a show ?thesis by simp
  qed
  have n: "invocations (trace_to c 0 k @ [Invoke k]) = Suc k"
    by (rule invocations_trace)
  from raised returned n show ?thesis by auto
qed

theorem api_retry_fatal_not_retried_witness:
  "spec_classify ''Invalid API key'' = Fatal \<and> \<not> str_contains ''5'' (lower ''Invalid API key'') \<and>
   retried default_config 0 (Raised ''read timeout'') \<and>
   api_retry default_config (\<lambda>a. if a = 0 then Raised ''read timeout'' else Raised ''Invalid API key'')
     = (Raised ''Invalid API key'', [Invoke 0, Sleep 1 True, Invoke 1]) \<and>
   api_retry default_config
      (\<lambda>a. if a = 0 then Raised ''read timeout'' else Returned (Std (failure ''Invalid API key'')))
     = (Returned (Std (failure ''Invalid API key'')), [Invoke 0, Sleep 1 True, Invoke 1])"
proof -
  have h: "spec_classify ''Invalid API key'' = Fatal" "\<not> str_contains ''5'' (lower ''Invalid API key'')"
    by code_simp+
  have t: "retried default_config 0 (Raised ''read timeout'')"
    by code_simp
  have m: "(1::nat) \<le> max_retries default_config"
    by (simp add: default_config_def)
  have r: "\<not> success (failure ''Invalid API key'')"
    "error_text (failure ''Invalid API key'') = ''Invalid API key''"
    "error_type_text (failure ''Invalid API key'') \<noteq> ''quota_exhausted''"
    by (simp_all add: failure_def error_text_def error_type_text_def)
  have tr: "trace_to default_config 0 1 @ [Invoke 1] = [Invoke 0, Sleep 1 True, Invoke 1]"
    by (simp add: trace_to_def wait_time_def default_config_def)
  let ?f = "\<lambda>a::nat. if a = 0 then Raised ''read timeout'' else Raised ''Invalid API key''"
  let ?g = "\<lambda>a::nat. if a = 0 then Raised ''read timeout'' else Returned (Std (failure ''Invalid API key''))"
  have pf: "\<forall>a<1. retried default_config a (?f a)" and pg: "\<forall>a<1. retried default_config a (?g a)"
    using t by simp_all
  have 1: "api_retry default_config ?f = (Raised ''Invalid API key'', [Invoke 0, Sleep 1 True, Invoke 1])"
    using api_retry_fatal_not_retried [OF h m pf] unfolding tr by simp
  have 2: "api_retry default_config ?g
     = (Returned (Std (failure ''Invalid API key'')), [Invoke 0, Sleep 1 True, Invoke 1])"
    using api_retry_fatal_not_retried [OF h m pg, of "failure ''Invalid API key''"] r unfolding tr by simp
  show ?thesis
    by (intro conjI) (rule h t 1 2)+
qed

section \<open>Properties of the image batch\<close>


lemma run_append:
  "run p (xs @ ys) s = (case run p xs s of None \<Rightarrow> None | Some s' \<Rightarrow> run p ys s')"
  by (induction xs arbitrary: s) (auto split: option.split)

lemma step_length: "step p e s = Some s' \<Longrightarrow> length (futs s') = length (futs s)"
  by (cases e) (auto split: if_splits fut.splits outcome.splits)

lemma step_flag_mono: "step p e s = Some s' \<Longrightarrow> quota_exhausted s \<Longrightarrow> quota_exhausted s'"
  by (cases e) (auto split: if_splits fut.splits outcome.splits)

lemma run_flag_mono: "run p es s = Some s' \<Longrightarrow> quota_exhausted s \<Longrightarrow> quota_exhausted s'"
  by (induction es arbitrary: s) (auto split: option.splits dest: step_flag_mono)

lemma step_flag_origin:
  "step p e s = Some s' \<Longrightarrow> quota_exhausted s' \<Longrightarrow>
   quota_exhausted s \<or> (\<exists>i<length (futs s). reports_quota (worker p i))"
  by (cases e) (auto split: if_splits fut.splits outcome.splits)

lemma step_collecting:
  "step p e s = Some s' \<Longrightarrow> \<not> collecting s' \<Longrightarrow> \<not> collecting s \<or> quota_exhausted s"
  by (cases e) (auto split: if_splits fut.splits outcome.splits)

lemma step_results_distinct:
  "step p e s = Some s' \<Longrightarrow> distinct (map fst (results s)) \<Longrightarrow> distinct (map fst (results s'))"
  by (cases e) (auto split: if_splits fut.splits outcome.splits simp: distinct_update)

lemma collected_update_mono:
  "fs ! i \<noteq> Collected \<Longrightarrow> collected fs \<subseteq> collected (fs[i := v])"
  by (auto simp: collected_def) (metis nth_list_update_neq)

lemma collected_update_Collected:
  "i < length fs \<Longrightarrow> collected (fs[i := Collected]) = insert i (collected fs)"
  by (auto simp: collected_def nth_list_update)

text \<open>What an event does to the futures and to the results.\<close>

lemma step_futs:
  assumes "step p e s = Some s'"
  shows "futs s' = futs s \<or>
    (\<exists>i v. i < length (futs s) \<and> futs s ! i \<noteq> Collected \<and> v \<noteq> Pending \<and> futs s' = (futs s)[i := v])"
proof (cases e)
  case (Start i)
  with assms have "i < length (futs s)" "futs s ! i = Pending"
    and "futs s' = (futs s)[i := Finished (Returned skipped_result)] \<or>
         futs s' = (futs s)[i := Running (now s)]"
    by (auto split: if_splits)
  moreover from this have "futs s ! i \<noteq> Collected" by auto
  ultimately show ?thesis by blast
next
  case (Finish i)
  with assms have "is_running (futs s ! i)" "i < length (futs s)"
    and "futs s' = (futs s)[i := Finished (worker p i)]"
    by (auto split: if_splits)
  moreover from this have "futs s ! i \<noteq> Collected" by auto
  ultimately show ?thesis by blast
next
  case (Collect i)
  with assms have "i < length (futs s)" "futs s ! i \<noteq> Collected" "futs s' = (futs s)[i := Collected]"
    by (auto split: if_splits fut.splits outcome.splits)
  then show ?thesis by blast
next
  case (Cancel i)
  with assms have "i < length (futs s)" "futs s ! i = Pending"
    and "futs s' = (futs s)[i := Cancelled]"
    by (auto split: if_splits)
  moreover from this have "futs s ! i \<noteq> Collected" by auto
  ultimately show ?thesis by blast
next
  case (Tick n)
  with assms show ?thesis by auto
qed

lemma step_collected:
  assumes "step p e s = Some s'"
  shows "collected (futs s) \<subseteq> collected (futs s')"
proof -
  from step_futs [OF assms] show ?thesis
  proof
    assume "futs s' = futs s"
    then show ?thesis by simp
  next
    assume "\<exists>i v. i < length (futs s) \<and> futs s ! i \<noteq> Collected \<and> v \<noteq> Pending \<and>
      futs s' = (futs s)[i := v]"
    then obtain i v where "futs s ! i \<noteq> Collected" "futs s' = (futs s)[i := v]"
      by blast
    then show ?thesis using collected_update_mono by simp
  qed
qed

lemma step_results_keys:
  assumes "step p e s = Some s'"
    and "fst ` set (results s) \<subseteq> key_of p ` collected (futs s)"
  shows "fst ` set (results s') \<subseteq> key_of p ` collected (futs s')"
proof (cases e)
  case (Collect i)
  with assms(1) have i: "i < length (futs s)" and f: "futs s' = (futs s)[i := Collected]"
    and "\<exists>r. results s' = AList.update (key_of p i) r (results s)"
    by (auto split: if_splits fut.splits outcome.splits)
  then obtain r where "results s' = AList.update (key_of p i) r (results s)"
    by blast
  then have r: "fst ` set (results s') = insert (key_of p i) (fst ` set (results s))"
    by (simp add: dom_update)
  show ?thesis
    unfolding r f collected_update_Collected [OF i] using assms(2) by auto
next
  case (Start i)
  with assms(1) have "results s' = results s" by (auto split: if_splits)
  with assms(2) step_collected [OF assms(1)] show ?thesis by auto
next
  case (Finish i)
  with assms(1) have "results s' = results s" by (auto split: if_splits)
  with assms(2) step_collected [OF assms(1)] show ?thesis by auto
next
  case (Cancel i)
  with assms(1) have "results s' = results s" by (auto split: if_splits)
  with assms(2) step_collected [OF assms(1)] show ?thesis by auto
next
  case (Tick n)
  with assms(1) have "results s' = results s" "futs s' = futs s" by auto
  with assms(2) show ?thesis by simp
qed

lemma step_invoked_subset:
  "step p e s = Some s' \<Longrightarrow> j \<in> set (invoked s') \<Longrightarrow>
   j \<in> set (invoked s) \<or> (e = Start j \<and> \<not> quota_exhausted s \<and> futs s' ! j = Running (now s) \<and> j < length (futs s))"
  by (cases e) (auto split: if_splits fut.splits outcome.splits)

lemma step_not_pending:
  assumes "step p e s = Some s'" and "j < length (futs s)" and "futs s ! j \<noteq> Pending"
  shows "futs s' ! j \<noteq> Pending"
  using step_futs [OF assms(1)] assms(2,3)
  by (auto simp: nth_list_update split: if_splits)

lemma step_invoked:
  assumes "step p e s = Some s'"
    and "\<forall>i \<in> set (invoked s). i < length (futs s) \<and> futs s ! i \<noteq> Pending"
  shows "\<forall>i \<in> set (invoked s'). i < length (futs s') \<and> futs s' ! i \<noteq> Pending"
proof
  fix j assume "j \<in> set (invoked s')"
  from step_invoked_subset [OF assms(1) this]
  show "j < length (futs s') \<and> futs s' ! j \<noteq> Pending"
    using assms(2) step_not_pending [OF assms(1)] step_length [OF assms(1)] by auto
qed

lemma batch_inv_init: "batch_inv p (init p)"
  by (simp add: batch_inv_def init_def collected_def)

lemma batch_inv_step:
  assumes "batch_inv p s" and "step p e s = Some s'"
  shows "batch_inv p s'"
  unfolding batch_inv_def
proof (intro conjI)
  show "length (futs s') = length (prompts_data p)"
    using assms step_length by (simp add: batch_inv_def)
  show "quota_exhausted s' \<longrightarrow> (\<exists>i<length (prompts_data p). reports_quota (worker p i))"
    using assms step_flag_origin [OF assms(2)] by (auto simp: batch_inv_def)
  show "\<not> collecting s' \<longrightarrow> quota_exhausted s'"
    using assms step_collecting [OF assms(2)] step_flag_mono [OF assms(2)]
    by (auto simp: batch_inv_def)
  show "distinct (map fst (results s'))"
    using assms step_results_distinct by (simp add: batch_inv_def)
  show "fst ` set (results s') \<subseteq> key_of p ` collected (futs s')"
    using assms(1) step_results_keys [OF assms(2)] unfolding batch_inv_def by blast
  show "\<forall>i \<in> set (invoked s'). i < length (futs s') \<and> futs s' ! i \<noteq> Pending"
    using assms(1) step_invoked [OF assms(2)] unfolding batch_inv_def by blast
qed

lemma batch_inv_run: "batch_inv p s \<Longrightarrow> run p es s = Some s' \<Longrightarrow> batch_inv p s'"
  by (induction es arbitrary: s) (auto split: option.splits dest: batch_inv_step)


















lemma finish_sets_flag:
  "step p (Finish j) s = Some s' \<Longrightarrow> reports_quota (worker p j) \<Longrightarrow> quota_exhausted s'"
  by (auto split: if_splits)

lemma start_after_trip:
  assumes "step p (Start i) s = Some s'" and "quota_exhausted s" and "batch_inv p s"
  shows "futs s' ! i = Finished (Returned skipped_result) \<and> i \<notin> set (invoked s')"
proof -
  from assms(1,2) have i: "i < length (futs s)" and pe: "futs s ! i = Pending"
    and s': "s' = s\<lparr>futs := (futs s)[i := Finished (Returned skipped_result)]\<rparr>"
    by (auto split: if_splits)
  from assms(3) pe have "i \<notin> set (invoked s)"
    by (auto simp: batch_inv_def)
  with i s' show ?thesis by simp
qed

lemma skip_after_quota_report:
  assumes r: "run p (es1 @ Finish j # es2 @ [Start i]) (init p) = Some s"
    and q: "reports_quota (worker p j)"
  shows "futs s ! i = Finished (Returned skipped_result) \<and> i \<notin> set (invoked s)"
proof -
  from r obtain s1 where s1: "run p es1 (init p) = Some s1"
    and r1: "run p (Finish j # es2 @ [Start i]) s1 = Some s"
    by (auto simp: run_append split: option.splits)
  from r1 obtain s2 where s2: "step p (Finish j) s1 = Some s2"
    and r2: "run p (es2 @ [Start i]) s2 = Some s"
    by (auto split: option.splits)
  from r2 obtain s3 where s3: "run p es2 s2 = Some s3"
    and r3: "step p (Start i) s3 = Some s"
    by (auto simp: run_append split: option.splits)
  have "quota_exhausted s2"
    using finish_sets_flag [OF s2 q] .
  then have f3: "quota_exhausted s3"
    using run_flag_mono [OF s3] by simp
  have "batch_inv p s1"
    using batch_inv_run [OF batch_inv_init s1] .
  then have "batch_inv p s2"
    using batch_inv_step s2 by blast
  then have "batch_inv p s3"
    using batch_inv_run s3 by blast
  with start_after_trip [OF r3 f3] show ?thesis by simp
qed

lemma running_not_interrupted:
  assumes "i < length (futs s)" and "futs s ! i = Running t" and "step p e s = Some s'"
  shows "(e = Finish i \<and> futs s' ! i = Finished (worker p i)) \<or> futs s' ! i = Running t"
proof (cases e)
  case (Start k)
  with assms show ?thesis
    by (cases "k = i") (auto split: if_splits)
next
  case (Finish k)
  with assms show ?thesis
    by (cases "k = i") (auto split: if_splits)
next
  case (Collect k)
  with assms show ?thesis
    by (cases "k = i") (auto split: if_splits fut.splits outcome.splits)
next
  case (Cancel k)
  with assms show ?thesis
    by (cases "k = i") (auto split: if_splits)
next
  case (Tick n)
  with assms show ?thesis by auto
qed

lemma running_can_finish:
  "i < length (futs s) \<Longrightarrow> futs s ! i = Running t \<Longrightarrow> step p (Finish i) s \<noteq> None"
  by simp

lemma step_after_break:
  "step p e s = Some s' \<Longrightarrow> \<not> collecting s \<Longrightarrow> results s' = results s \<and> \<not> collecting s'"
  by (cases e) (auto split: if_splits)

lemma run_after_break:
  "run p es s = Some s' \<Longrightarrow> \<not> collecting s \<Longrightarrow> results s' = results s \<and> \<not> collecting s'"
proof (induction es arbitrary: s)
  case Nil
  then show ?case by simp
next
  case (Cons e es)
  from Cons.prems(1) obtain s1 where "step p e s = Some s1" "run p es s1 = Some s'"
    by (auto split: option.splits)
  with Cons.IH [of s1] step_after_break [of p e s s1] Cons.prems(2) show ?case by simp
qed

text \<open>
  C3, amended. Once a task has reported quota exhaustion, every task of the batch that
  starts afterwards returns the synthesized quota failure and the worker is not invoked
  for it; a task already running is not interrupted: only its own return changes it,
  and that return is always possible. Its result is recorded only if the collecting loop
  takes it before the loop has seen the flag: after the \<open>break\<close> nothing more is recorded.
\<close>

theorem quota_trip_gate:
  "(\<forall>es1 j es2 i s.
      run p (es1 @ Finish j # es2 @ [Start i]) (init p) = Some s \<and> reports_quota (worker p j)
      \<longrightarrow> futs s ! i = Finished (Returned skipped_result) \<and> i \<notin> set (invoked s)) \<and>
   (\<forall>s i t e s'.
      i < length (futs s) \<and> futs s ! i = Running t \<and> step p e s = Some s'
      \<longrightarrow> (e = Finish i \<and> futs s' ! i = Finished (worker p i)) \<or> futs s' ! i = Running t) \<and>
   (\<forall>s i t. i < length (futs s) \<and> futs s ! i = Running t \<longrightarrow> step p (Finish i) s \<noteq> None) \<and>
   (\<forall>s es s'. \<not> collecting s \<and> run p es s = Some s'
      \<longrightarrow> results s' = results s \<and> \<not> collecting s')"
  using skip_after_quota_report running_not_interrupted running_can_finish run_after_break
  by blast

text \<open>
  C3, as stated, fails in its last part: a task that was already running when the quota
  failure was reported finishes with a success, but the loop has been left and its
  result is not recorded.
\<close>

theorem running_result_dropped_counterexample:
  "run two_thread_batch [Start 0, Start 1, Finish 0] (init two_thread_batch)
     = Some \<lparr>futs = [Finished (Returned quota_result), Running 0, Pending], quota_exhausted = True,
             results = [], collecting = True, invoked = [0, 1], now = 0\<rparr> \<and>
   worker two_thread_batch 1 = Returned ok_result \<and>
   generate_images_parallel two_thread_batch
     [Start 0, Start 1, Finish 0, Collect 0, Cancel 2, Tick 30, Finish 1]
     = Some (Returned [(Page 1, quota_result)]) \<and>
   map_of [(Page 1, quota_result)] (Page 2) = None"
  by code_simp

theorem quota_trip_gate_witness:
  "reports_quota (worker quota_batch 1) \<and>
   run quota_batch ([Start 0, Finish 0, Collect 0, Start 1] @ Finish 1 # [] @ [Start 2]) (init quota_batch)
     = Some \<lparr>futs = [Collected, Finished (Returned quota_result), Finished (Returned skipped_result)],
             quota_exhausted = True, results = [(Page 1, ok_result)], collecting = True,
             invoked = [0, 1], now = 0\<rparr> \<and>
   [Collected, Finished (Returned quota_result), Finished (Returned skipped_result)] ! 2
     = Finished (Returned skipped_result) \<and>
   2 \<notin> set [0, 1 :: nat]"
proof -
  have q: "reports_quota (worker quota_batch 1)"
    by code_simp
  have r: "run quota_batch ([Start 0, Finish 0, Collect 0, Start 1] @ Finish 1 # [] @ [Start 2])
      (init quota_batch)
     = Some \<lparr>futs = [Collected, Finished (Returned quota_result), Finished (Returned skipped_result)],
             quota_exhausted = True, results = [(Page 1, ok_result)], collecting = True,
             invoked = [0, 1], now = 0\<rparr>"
    by code_simp
  from quota_trip_gate [of quota_batch] r q
  have "futs \<lparr>futs = [Collected, Finished (Returned quota_result), Finished (Returned skipped_result)],
             quota_exhausted = True, results = [(Page 1, ok_result)], collecting = True,
             invoked = [0, 1], now = 0\<rparr> ! 2 = Finished (Returned skipped_result) \<and>
        2 \<notin> set (invoked \<lparr>futs = [Collected, Finished (Returned quota_result), Finished (Returned skipped_result)],
             quota_exhausted = True, results = [(Page 1, ok_result)], collecting = True,
             invoked = [0, 1], now = 0\<rparr>)"
    by blast
  with q r show ?thesis by simp
qed

text \<open>
  C4. The code at a task that runs for 200 seconds: the two other results are collected
  at second 5, the slow task is still running at second 200, and when it returns its own
  result is recorded; no timeout failure is recorded for it.
\<close>

theorem timeout_not_enforced:
  "run slow_batch [Start 0, Start 1, Start 2, Tick 5, Finish 1, Collect 1, Finish 2, Collect 2, Tick 195]
     (init slow_batch)
     = Some \<lparr>futs = [Running 0, Collected, Collected], quota_exhausted = False,
             results = [(Page 2, ok_result), (Page 3, ok_result)], collecting = True,
             invoked = [0, 1, 2], now = 200\<rparr> \<and>
   generate_images_parallel slow_batch
     [Start 0, Start 1, Start 2, Tick 5, Finish 1, Collect 1, Finish 2, Collect 2, Tick 195,
      Finish 0, Collect 0]
     = Some (Returned [(Page 2, ok_result), (Page 3, ok_result), (Page 1, ok_result)])"
  by code_simp

section \<open>Properties of the pipeline controller\<close>

lemma build_pages_ok:
  "i + length pgs \<le> length prompts \<Longrightarrow>
   build_pages prompts ar au i pgs =
     Returned (map (\<lambda>j. page_data ar au (fst (snd (prompts ! (i + j)))) (i + j + 1) (pgs ! j))
                 [0 ..< length pgs])"
proof (induction pgs arbitrary: i)
  case Nil
  show ?case by simp
next
  case (Cons t pgs)
  have ih: "build_pages prompts ar au (i + 1) pgs =
     Returned (map (\<lambda>j. page_data ar au (fst (snd (prompts ! (i + 1 + j)))) (i + 1 + j + 1) (pgs ! j))
                 [0 ..< length pgs])"
    using Cons.IH [of "i + 1"] Cons.prems by simp
  have i: "i < length prompts"
    using Cons.prems by simp
  have m: "map (\<lambda>j. page_data ar au (fst (snd (prompts ! (i + j)))) (i + j + 1) ((t # pgs) ! j))
             [0 ..< length (t # pgs)]
           = page_data ar au (fst (snd (prompts ! i))) (i + 1) t
             # map (\<lambda>j. page_data ar au (fst (snd (prompts ! (i + 1 + j)))) (i + 1 + j + 1) (pgs ! j))
                 [0 ..< length pgs]"
    by (simp add: upt_conv_Cons map_Suc_upt [symmetric] del: upt_Suc)
  show ?case
    unfolding m using i ih by (simp add: Let_def page_data_def)
qed

lemma prompts_length:
  "distinct order \<Longrightarrow> set order = {0 ..< Suc n} \<Longrightarrow>
   length (generate_all_prompts_parallel pgs pf order) = Suc n"
  using distinct_card [of order] by (simp add: generate_all_prompts_parallel_def)

lemma create_storybook_complete:
  assumes s: "structure_call env = Returned (StageOk st)"
    and p: "pages_call env = Returned (StageOk (pgs, sid))"
    and d: "distinct (prompt_order env)" and o: "set (prompt_order env) = {0 ..< Suc (length pgs)}"
  shows "\<exists>sb. create_storybook env req g =
           (Returned (Created sb (session_folder env) (make_stats (image_batch env))),
            (begun g env)\<lparr>current_storybook := Some sb\<rparr>, all_stages) \<and>
         pages sb = map (\<lambda>j. page_data (image_batch env) (audio_batch env)
              (fst (snd (generate_all_prompts_parallel pgs (prompt_of env) (prompt_order env) ! j)))
              (j + 1) (pgs ! j)) [0 ..< length pgs] \<and>
         cover sb = build_cover (generate_all_prompts_parallel pgs (prompt_of env) (prompt_order env))
              (image_batch env) (audio_batch env) \<and>
         story_structure sb = st \<and> sb_id sb = sid"
proof -
  have "0 + length pgs \<le> length (generate_all_prompts_parallel pgs (prompt_of env) (prompt_order env))"
    using prompts_length [OF d o] by simp
  from build_pages_ok [OF this]
  show ?thesis
    using s p by (simp add: create_storybook_def Let_def begun_def all_stages_def)
qed

lemma dict_get_absent: "map_of d k = None \<Longrightarrow> dict_get d k dflt = dflt"
  by (simp add: dict_get_def)

lemma page_data_sel [simp]:
  "page_number (page_data ar au pr n t) = n"
  "e_text (page_data ar au pr n t) = t"
  "e_success (page_data ar au pr n t) = success (dict_get ar (Page n) image_default)"
  "audio_success (page_data ar au pr n t) = success (dict_get au (Page n) audio_default)"
  "e_image_data (page_data ar au pr n t) =
     (case image_data (dict_get ar (Page n) image_default) of None \<Rightarrow> '''' | Some d \<Rightarrow> d)"
  by (simp_all add: page_data_def entry_fields_def cover_entry.defs page_entry.defs)

lemma dict_get_present: "map_of d k = Some v \<Longrightarrow> dict_get d k dflt = v"
  by (simp add: dict_get_def)

lemma build_cover_sel:
  "e_success (build_cover prompts ar au) = success (dict_get ar Cover cover_default)"
  "audio_success (build_cover prompts ar au) = success (dict_get au Cover audio_default)"
  "e_image_data (build_cover prompts ar au) =
     (case image_data (dict_get ar Cover cover_default) of None \<Rightarrow> '''' | Some d \<Rightarrow> d)"
  by (simp_all add: build_cover_def entry_fields_def Let_def)

lemma default_failures:
  "\<not> success image_default" "\<not> success audio_default" "\<not> success cover_default"
  by (simp_all add: image_default_def audio_default_def cover_default_def failure_def)

text \<open>
  C5. A failed structure result, or a failed page-text result, is returned as it is: the
  run stops there, the later stages and the batches are not called and the current
  storybook of the generator stays as it was. When both succeed, the run calls the three
  batches and, whatever they returned, goes on to the assembly and returns a storybook
  with one entry per page and a cover: a unit that the image or audio batch holds appears
  with its own success flag (and its image data), a unit the batch does not hold appears
  as a failure, and the statistics count the units of the image batch.
\<close>

theorem create_storybook_abort_policy:
  "(structure_call env = Returned (StageFailed r) \<longrightarrow>
      create_storybook env req g = (Returned (Aborted r), begun g env, [GenerateStructure]) \<and>
      current_storybook (begun g env) = current_storybook g) \<and>
   (structure_call env = Returned (StageOk st) \<and> pages_call env = Returned (StageFailed r) \<longrightarrow>
      create_storybook env req g =
        (Returned (Aborted r), begun g env, [GenerateStructure, GeneratePages]) \<and>
      current_storybook (begun g env) = current_storybook g) \<and>
   (structure_call env = Returned (StageOk st) \<and> pages_call env = Returned (StageOk (pgs, sid)) \<and>
    distinct (prompt_order env) \<and> set (prompt_order env) = {0 ..< Suc (length pgs)} \<longrightarrow>
      (\<exists>sb stats. create_storybook env req g =
           (Returned (Created sb (session_folder env) stats),
            (begun g env)\<lparr>current_storybook := Some sb\<rparr>,
            [GenerateStructure, GeneratePages, PromptBatch, ImageBatch, AudioBatch]) \<and>
         length (pages sb) = length pgs \<and>
         (\<forall>i<length pgs.
            page_number (pages sb ! i) = i + 1 \<and> e_text (pages sb ! i) = pgs ! i \<and>
            (\<forall>u. map_of (image_batch env) (Page (i + 1)) = Some u \<longrightarrow>
               e_success (pages sb ! i) = success u \<and>
               e_image_data (pages sb ! i) = (case image_data u of None \<Rightarrow> '''' | Some d \<Rightarrow> d)) \<and>
            (map_of (image_batch env) (Page (i + 1)) = None \<longrightarrow> \<not> e_success (pages sb ! i)) \<and>
            (\<forall>u. map_of (audio_batch env) (Page (i + 1)) = Some u \<longrightarrow>
               audio_success (pages sb ! i) = success u) \<and>
            (map_of (audio_batch env) (Page (i + 1)) = None \<longrightarrow> \<not> audio_success (pages sb ! i))) \<and>
         (\<forall>u. map_of (image_batch env) Cover = Some u \<longrightarrow>
            e_success (cover sb) = success u \<and>
            e_image_data (cover sb) = (case image_data u of None \<Rightarrow> '''' | Some d \<Rightarrow> d)) \<and>
         (map_of (image_batch env) Cover = None \<longrightarrow> \<not> e_success (cover sb)) \<and>
         (\<forall>u. map_of (audio_batch env) Cover = Some u \<longrightarrow> audio_success (cover sb) = success u) \<and>
         (map_of (audio_batch env) Cover = None \<longrightarrow> \<not> audio_success (cover sb)) \<and>
         total_images stats = length (image_batch env) \<and>
         successful_images stats = length (filter (\<lambda>(k, u). success u) (image_batch env)) \<and>
         failed_images stats = total_images stats - successful_images stats))"
proof (intro conjI impI)
  assume "structure_call env = Returned (StageFailed r)"
  then show "create_storybook env req g = (Returned (Aborted r), begun g env, [GenerateStructure])"
    by (simp add: create_storybook_def begun_def)
next
  assume "structure_call env = Returned (StageOk st) \<and> pages_call env = Returned (StageFailed r)"
  then show "create_storybook env req g =
      (Returned (Aborted r), begun g env, [GenerateStructure, GeneratePages])"
    by (simp add: create_storybook_def begun_def)
next
  let ?ar = "image_batch env" and ?au = "audio_batch env"
  let ?pr = "generate_all_prompts_parallel pgs (prompt_of env) (prompt_order env)"
  assume "structure_call env = Returned (StageOk st) \<and> pages_call env = Returned (StageOk (pgs, sid)) \<and>
    distinct (prompt_order env) \<and> set (prompt_order env) = {0 ..< Suc (length pgs)}"
  then obtain sb where c: "create_storybook env req g =
           (Returned (Created sb (session_folder env) (make_stats ?ar)),
            (begun g env)\<lparr>current_storybook := Some sb\<rparr>, all_stages)"
    and p: "pages sb = map (\<lambda>j. page_data ?ar ?au (fst (snd (?pr ! j))) (j + 1) (pgs ! j))
              [0 ..< length pgs]"
    and v: "cover sb = build_cover ?pr ?ar ?au"
    using create_storybook_complete [of env st pgs sid req g] by blast
  have 1: "create_storybook env req g =
           (Returned (Created sb (session_folder env) (make_stats ?ar)),
            (begun g env)\<lparr>current_storybook := Some sb\<rparr>,
            [GenerateStructure, GeneratePages, PromptBatch, ImageBatch, AudioBatch])"
    using c by (simp add: all_stages_def)
  have 2: "length (pages sb) = length pgs"
    unfolding p by simp
  have 3: "\<forall>i<length pgs.
            page_number (pages sb ! i) = i + 1 \<and> e_text (pages sb ! i) = pgs ! i \<and>
            (\<forall>u. map_of ?ar (Page (i + 1)) = Some u \<longrightarrow>
               e_success (pages sb ! i) = success u \<and>
               e_image_data (pages sb ! i) = (case image_data u of None \<Rightarrow> '''' | Some d \<Rightarrow> d)) \<and>
            (map_of ?ar (Page (i + 1)) = None \<longrightarrow> \<not> e_success (pages sb ! i)) \<and>
            (\<forall>u. map_of ?au (Page (i + 1)) = Some u \<longrightarrow>
               audio_success (pages sb ! i) = success u) \<and>
            (map_of ?au (Page (i + 1)) = None \<longrightarrow> \<not> audio_success (pages sb ! i))"
    unfolding p by (simp add: dict_get_absent dict_get_present default_failures)
  have 4: "\<forall>u. map_of ?ar Cover = Some u \<longrightarrow>
            e_success (cover sb) = success u \<and>
            e_image_data (cover sb) = (case image_data u of None \<Rightarrow> '''' | Some d \<Rightarrow> d)"
    and 5: "map_of ?ar Cover = None \<longrightarrow> \<not> e_success (cover sb)"
    and 6: "\<forall>u. map_of ?au Cover = Some u \<longrightarrow> audio_success (cover sb) = success u"
    and 7: "map_of ?au Cover = None \<longrightarrow> \<not> audio_success (cover sb)"
    unfolding v
    by (simp_all add: build_cover_sel dict_get_absent dict_get_present default_failures)
  have 8: "total_images (make_stats ?ar) = length ?ar"
    and 9: "successful_images (make_stats ?ar) = length (filter (\<lambda>(k, u). success u) ?ar)"
    and 10: "failed_images (make_stats ?ar) = total_images (make_stats ?ar) - successful_images (make_stats ?ar)"
    by (simp_all add: make_stats_def Let_def)
  show "\<exists>sb stats. create_storybook env req g =
           (Returned (Created sb (session_folder env) stats),
            (begun g env)\<lparr>current_storybook := Some sb\<rparr>,
            [GenerateStructure, GeneratePages, PromptBatch, ImageBatch, AudioBatch]) \<and>
         length (pages sb) = length pgs \<and>
         (\<forall>i<length pgs.
            page_number (pages sb ! i) = i + 1 \<and> e_text (pages sb ! i) = pgs ! i \<and>
            (\<forall>u. map_of (image_batch env) (Page (i + 1)) = Some u \<longrightarrow>
               e_success (pages sb ! i) = success u \<and>
               e_image_data (pages sb ! i) = (case image_data u of None \<Rightarrow> '''' | Some d \<Rightarrow> d)) \<and>
            (map_of (image_batch env) (Page (i + 1)) = None \<longrightarrow> \<not> e_success (pages sb ! i)) \<and>
            (\<forall>u. map_of (audio_batch env) (Page (i + 1)) = Some u \<longrightarrow>
               audio_success (pages sb ! i) = success u) \<and>
            (map_of (audio_batch env) (Page (i + 1)) = None \<longrightarrow> \<not> audio_success (pages sb ! i))) \<and>
         (\<forall>u. map_of (image_batch env) Cover = Some u \<longrightarrow>
            e_success (cover sb) = success u \<and>
            e_image_data (cover sb) = (case image_data u of None \<Rightarrow> '''' | Some d \<Rightarrow> d)) \<and>
         (map_of (image_batch env) Cover = None \<longrightarrow> \<not> e_success (cover sb)) \<and>
         (\<forall>u. map_of (audio_batch env) Cover = Some u \<longrightarrow> audio_success (cover sb) = success u) \<and>
         (map_of (audio_batch env) Cover = None \<longrightarrow> \<not> audio_success (cover sb)) \<and>
         total_images stats = length (image_batch env) \<and>
         successful_images stats = length (filter (\<lambda>(k, u). success u) (image_batch env)) \<and>
         failed_images stats = total_images stats - successful_images stats"
    apply (intro exI conjI)
              apply (rule 1)
             apply (rule 2)
            apply (rule 3)
           apply (rule 4)
          apply (rule 5)
         apply (rule 6)
        apply (rule 7)
       apply (rule 8)
      apply (rule 9)
     apply (rule 10)
    done
qed (simp_all add: begun_def)

theorem create_storybook_abort_policy_witness:
  "structure_call structure_failed_env = Returned (StageFailed (failure ''Invalid API key'')) \<and>
   create_storybook structure_failed_env plain_request (new_generator True)
     = (Returned (Aborted (failure ''Invalid API key'')),
        begun (new_generator True) structure_failed_env, [GenerateStructure]) \<and>
   current_storybook (begun (new_generator True) structure_failed_env) = None \<and>
   structure_call pages_failed_env = Returned (StageOk plain_structure) \<and>
   pages_call pages_failed_env = Returned (StageFailed (failure ''Invalid API key'')) \<and>
   create_storybook pages_failed_env plain_request (new_generator True)
     = (Returned (Aborted (failure ''Invalid API key'')),
        begun (new_generator True) pages_failed_env, [GenerateStructure, GeneratePages]) \<and>
   structure_call mixed_env = Returned (StageOk plain_structure) \<and>
   pages_call mixed_env = Returned (StageOk ([''one'', ''two''], ''id-1'')) \<and>
   distinct (prompt_order mixed_env) \<and>
   set (prompt_order mixed_env) = {0 ..< Suc (length [''one'', ''two''])} \<and>
   (\<exists>sb stats. create_storybook mixed_env plain_request (new_generator True)
          = (Returned (Created sb (session_folder mixed_env) stats),
             (begun (new_generator True) mixed_env)\<lparr>current_storybook := Some sb\<rparr>,
             [GenerateStructure, GeneratePages, PromptBatch, ImageBatch, AudioBatch]) \<and>
        length (pages sb) = length [''one'', ''two''] \<and>
        e_success (pages sb ! 0) \<and> e_image_data (pages sb ! 0) = ''aGVsbG8='' \<and>
        audio_success (pages sb ! 0) \<and>
        \<not> e_success (pages sb ! 1) \<and> \<not> audio_success (pages sb ! 1) \<and>
        \<not> e_success (cover sb) \<and> \<not> audio_success (cover sb) \<and>
        total_images stats = 2 \<and> successful_images stats = 1 \<and> failed_images stats = 1)"
proof -
  have s1: "structure_call structure_failed_env = Returned (StageFailed (failure ''Invalid API key''))"
    by (simp add: structure_failed_env_def)
  have s2: "structure_call pages_failed_env = Returned (StageOk plain_structure)"
    "pages_call pages_failed_env = Returned (StageFailed (failure ''Invalid API key''))"
    by (simp_all add: pages_failed_env_def partial_env_def)
  have s3: "structure_call mixed_env = Returned (StageOk plain_structure)"
    "pages_call mixed_env = Returned (StageOk ([''one'', ''two''], ''id-1''))"
    "distinct (prompt_order mixed_env)"
    by (simp_all add: mixed_env_def)
  have s4: "set (prompt_order mixed_env) = {0 ..< Suc (length [''one'', ''two''])}"
    by (auto simp: mixed_env_def)
  have n: "current_storybook (begun (new_generator True) structure_failed_env) = None"
    by (simp add: begun_def new_generator_def)
  note a = create_storybook_abort_policy
    [of structure_failed_env "failure ''Invalid API key''" plain_request "new_generator True",
      THEN conjunct1, rule_format, OF s1]
  note b = create_storybook_abort_policy
    [of pages_failed_env "failure ''Invalid API key''" plain_request "new_generator True" plain_structure,
      THEN conjunct2, THEN conjunct1, rule_format, OF conjI [OF s2]]
  note c = create_storybook_abort_policy
    [of mixed_env _ plain_request "new_generator True" plain_structure "[''one'', ''two'']" "''id-1''",
      THEN conjunct2, THEN conjunct2, rule_format, OF conjI [OF s3(1) conjI [OF s3(2) conjI [OF s3(3) s4]]]]
  have 1: "create_storybook structure_failed_env plain_request (new_generator True)
     = (Returned (Aborted (failure ''Invalid API key'')),
        begun (new_generator True) structure_failed_env, [GenerateStructure])"
    using a by (rule conjunct1)
  have 2: "create_storybook pages_failed_env plain_request (new_generator True)
     = (Returned (Aborted (failure ''Invalid API key'')),
        begun (new_generator True) pages_failed_env, [GenerateStructure, GeneratePages])"
    using b by (rule conjunct1)
  have m: "map_of (image_batch mixed_env) (Page (0 + 1)) = Some ok_result"
    "map_of (audio_batch mixed_env) (Page (0 + 1)) = Some ok_audio"
    "map_of (image_batch mixed_env) (Page (1 + 1)) = Some (failure ''No images generated'')"
    "map_of (audio_batch mixed_env) (Page (1 + 1)) = None"
    "map_of (image_batch mixed_env) Cover = None"
    "map_of (audio_batch mixed_env) Cover = Some (failure ''no key'')"
    by (simp_all add: mixed_env_def)
  have v: "success ok_result" "success ok_audio" "\<not> success (failure ''No images generated'')"
    "\<not> success (failure ''no key'')"
    "(case image_data ok_result of None \<Rightarrow> '''' | Some d \<Rightarrow> d) = ''aGVsbG8=''"
    by (simp_all add: ok_result_def ok_audio_def failure_def)
  have i: "(0::nat) < length [''one'', ''two'']" "(1::nat) < length [''one'', ''two'']"
    by simp_all
  have st: "length (image_batch mixed_env) = 2"
    "length (filter (\<lambda>(k, u). success u) (image_batch mixed_env)) = 1"
    by (simp_all add: mixed_env_def ok_result_def failure_def)
  from c obtain sb stats where
    r: "create_storybook mixed_env plain_request (new_generator True)
          = (Returned (Created sb (session_folder mixed_env) stats),
             (begun (new_generator True) mixed_env)\<lparr>current_storybook := Some sb\<rparr>,
             [GenerateStructure, GeneratePages, PromptBatch, ImageBatch, AudioBatch])"
    and l: "length (pages sb) = length [''one'', ''two'']"
    and pg: "\<forall>i<length [''one'', ''two''].
            page_number (pages sb ! i) = i + 1 \<and> e_text (pages sb ! i) = [''one'', ''two''] ! i \<and>
            (\<forall>u. map_of (image_batch mixed_env) (Page (i + 1)) = Some u \<longrightarrow>
               e_success (pages sb ! i) = success u \<and>
               e_image_data (pages sb ! i) = (case image_data u of None \<Rightarrow> '''' | Some d \<Rightarrow> d)) \<and>
            (map_of (image_batch mixed_env) (Page (i + 1)) = None \<longrightarrow> \<not> e_success (pages sb ! i)) \<and>
            (\<forall>u. map_of (audio_batch mixed_env) (Page (i + 1)) = Some u \<longrightarrow>
               audio_success (pages sb ! i) = success u) \<and>
            (map_of (audio_batch mixed_env) (Page (i + 1)) = None \<longrightarrow> \<not> audio_success (pages sb ! i))"
    and cv: "map_of (image_batch mixed_env) Cover = None \<longrightarrow> \<not> e_success (cover sb)"
    and ca: "\<forall>u. map_of (audio_batch mixed_env) Cover = Some u \<longrightarrow> audio_success (cover sb) = success u"
    and t: "total_images stats = length (image_batch mixed_env)"
      "successful_images stats = length (filter (\<lambda>(k, u). success u) (image_batch mixed_env))"
      "failed_images stats = total_images stats - successful_images stats"
    by (elim exE conjE) (rule that; assumption)
  have p0: "e_success (pages sb ! 0)" "e_image_data (pages sb ! 0) = ''aGVsbG8=''"
    "audio_success (pages sb ! 0)"
    using pg [rule_format, OF i(1)] m(1,2) v by simp_all
  have p1: "\<not> e_success (pages sb ! 1)" "\<not> audio_success (pages sb ! 1)"
    using pg [rule_format, OF i(2)] m(3,4) v by simp_all
  have c0: "\<not> e_success (cover sb)" "\<not> audio_success (cover sb)"
    using cv ca m(5,6) v by simp_all
  have t': "total_images stats = 2" "successful_images stats = 1" "failed_images stats = 1"
    using t st by simp_all
  have ex: "\<exists>sb stats. create_storybook mixed_env plain_request (new_generator True)
          = (Returned (Created sb (session_folder mixed_env) stats),
             (begun (new_generator True) mixed_env)\<lparr>current_storybook := Some sb\<rparr>,
             [GenerateStructure, GeneratePages, PromptBatch, ImageBatch, AudioBatch]) \<and>
        length (pages sb) = length [''one'', ''two''] \<and>
        e_success (pages sb ! 0) \<and> e_image_data (pages sb ! 0) = ''aGVsbG8='' \<and>
        audio_success (pages sb ! 0) \<and>
        \<not> e_success (pages sb ! 1) \<and> \<not> audio_success (pages sb ! 1) \<and>
        \<not> e_success (cover sb) \<and> \<not> audio_success (cover sb) \<and>
        total_images stats = 2 \<and> successful_images stats = 1 \<and> failed_images stats = 1"
    apply (intro exI conjI)
               apply (rule r)
              apply (rule l)
             apply (rule p0)+
          apply (rule p1)+
        apply (rule c0)+
      apply (rule t')+
    done
  show ?thesis
    by (intro conjI) (rule s1 s2 s3 s4 n 1 2 ex)+
qed

text \<open>
  C9. Once the structure and the page texts are there, the assembly always produces a
  storybook with exactly one entry per page, numbered from 1, and a cover entry, each
  with its success flags. A key that is absent from the image results is read as the
  default failure (success false, with its error message) and gives an entry whose
  success flag is false and whose image data is empty; a key absent from the audio
  results gives an entry whose audio flag is false.
\<close>

theorem assembly_total:
  assumes "structure_call env = Returned (StageOk st)"
    and "pages_call env = Returned (StageOk (pgs, sid))"
    and "distinct (prompt_order env)" and "set (prompt_order env) = {0 ..< Suc (length pgs)}"
  shows "\<exists>sb folder stats g' calls.
     create_storybook env req g = (Returned (Created sb folder stats), g', calls) \<and>
     current_storybook g' = Some sb \<and>
     length (pages sb) = length pgs \<and>
     (\<forall>i<length pgs.
        page_number (pages sb ! i) = i + 1 \<and>
        e_success (pages sb ! i) = success (dict_get (image_batch env) (Page (i + 1)) image_default) \<and>
        audio_success (pages sb ! i) = success (dict_get (audio_batch env) (Page (i + 1)) audio_default) \<and>
        (map_of (image_batch env) (Page (i + 1)) = None \<longrightarrow>
           dict_get (image_batch env) (Page (i + 1)) image_default = failure ''Generation failed'' \<and>
           \<not> e_success (pages sb ! i) \<and> e_image_data (pages sb ! i) = '''') \<and>
        (map_of (audio_batch env) (Page (i + 1)) = None \<longrightarrow> \<not> audio_success (pages sb ! i))) \<and>
     e_success (cover sb) = success (dict_get (image_batch env) Cover cover_default) \<and>
     (map_of (image_batch env) Cover = None \<longrightarrow>
        dict_get (image_batch env) Cover cover_default = failure ''Cover generation failed'' \<and>
        \<not> e_success (cover sb)) \<and>
     (map_of (audio_batch env) Cover = None \<longrightarrow> \<not> audio_success (cover sb))"
proof -
  from create_storybook_complete [OF assms, of req g] obtain sb where
    c: "create_storybook env req g =
           (Returned (Created sb (session_folder env) (make_stats (image_batch env))),
            (begun g env)\<lparr>current_storybook := Some sb\<rparr>, all_stages)"
    and p: "pages sb = map (\<lambda>j. page_data (image_batch env) (audio_batch env)
              (fst (snd (generate_all_prompts_parallel pgs (prompt_of env) (prompt_order env) ! j)))
              (j + 1) (pgs ! j)) [0 ..< length pgs]"
    and v: "cover sb = build_cover (generate_all_prompts_parallel pgs (prompt_of env) (prompt_order env))
              (image_batch env) (audio_batch env)"
    by blast
  have pg: "\<forall>i<length pgs.
        page_number (pages sb ! i) = i + 1 \<and>
        e_success (pages sb ! i) = success (dict_get (image_batch env) (Page (i + 1)) image_default) \<and>
        audio_success (pages sb ! i) = success (dict_get (audio_batch env) (Page (i + 1)) audio_default) \<and>
        (map_of (image_batch env) (Page (i + 1)) = None \<longrightarrow>
           dict_get (image_batch env) (Page (i + 1)) image_default = failure ''Generation failed'' \<and>
           \<not> e_success (pages sb ! i) \<and> e_image_data (pages sb ! i) = '''') \<and>
        (map_of (audio_batch env) (Page (i + 1)) = None \<longrightarrow> \<not> audio_success (pages sb ! i))"
    unfolding p
    by (simp add: dict_get_absent image_default_def audio_default_def failure_def)
  have cv: "e_success (cover sb) = success (dict_get (image_batch env) Cover cover_default)"
    "audio_success (cover sb) = success (dict_get (audio_batch env) Cover audio_default)"
    unfolding v by (simp_all add: build_cover_def entry_fields_def Let_def)
  have cv': "map_of (image_batch env) Cover = None \<longrightarrow>
        dict_get (image_batch env) Cover cover_default = failure ''Cover generation failed'' \<and>
        \<not> e_success (cover sb)"
    "map_of (audio_batch env) Cover = None \<longrightarrow> \<not> audio_success (cover sb)"
    unfolding cv by (simp_all add: dict_get_absent cover_default_def audio_default_def failure_def)
  have l: "length (pages sb) = length pgs"
    unfolding p by simp
  have cs: "current_storybook ((begun g env)\<lparr>current_storybook := Some sb\<rparr>) = Some sb"
    by simp
  show ?thesis
    apply (intro exI conjI)
          apply (rule c)
         apply (rule cs)
        apply (rule l)
       apply (rule pg)
      apply (rule cv(1))
     apply (rule cv'(1))
    apply (rule cv'(2))
    done
qed

theorem assembly_total_witness:
  "structure_call partial_env = Returned (StageOk plain_structure) \<and>
   pages_call partial_env = Returned (StageOk ([''one'', ''two''], ''id-1'')) \<and>
   distinct (prompt_order partial_env) \<and>
   set (prompt_order partial_env) = {0 ..< Suc (length [''one'', ''two''])} \<and>
   map_of (image_batch partial_env) (Page 2) = None \<and>
   map_of (image_batch partial_env) Cover = None \<and>
   (\<exists>sb folder stats g' calls.
      create_storybook partial_env plain_request (new_generator True)
        = (Returned (Created sb folder stats), g', calls) \<and>
      length (pages sb) = 2 \<and> page_number (pages sb ! 1) = 2 \<and>
      \<not> e_success (pages sb ! 1) \<and> e_image_data (pages sb ! 1) = '''' \<and>
      \<not> audio_success (pages sb ! 1) \<and> \<not> e_success (cover sb))"
proof -
  have s3: "structure_call partial_env = Returned (StageOk plain_structure)"
    "pages_call partial_env = Returned (StageOk ([''one'', ''two''], ''id-1''))"
    "distinct (prompt_order partial_env)"
    by (simp_all add: partial_env_def)
  have s4: "set (prompt_order partial_env) = {0 ..< Suc (length [''one'', ''two''])}"
    by (auto simp: partial_env_def)
  have m: "map_of (image_batch partial_env) (Page 2) = None"
    "map_of (image_batch partial_env) Cover = None"
    "map_of (audio_batch partial_env) (Page 2) = None"
    by (simp_all add: partial_env_def)
  from assembly_total [OF s3 s4, of plain_request "new_generator True"]
  obtain sb folder stats g' calls where
    c: "create_storybook partial_env plain_request (new_generator True)
        = (Returned (Created sb folder stats), g', calls)"
    and l: "length (pages sb) = length [''one'', ''two'']"
    and a: "\<forall>i<length [''one'', ''two''].
        page_number (pages sb ! i) = i + 1 \<and>
        e_success (pages sb ! i) = success (dict_get (image_batch partial_env) (Page (i + 1)) image_default) \<and>
        audio_success (pages sb ! i) = success (dict_get (audio_batch partial_env) (Page (i + 1)) audio_default) \<and>
        (map_of (image_batch partial_env) (Page (i + 1)) = None \<longrightarrow>
           dict_get (image_batch partial_env) (Page (i + 1)) image_default = failure ''Generation failed'' \<and>
           \<not> e_success (pages sb ! i) \<and> e_image_data (pages sb ! i) = '''') \<and>
        (map_of (audio_batch partial_env) (Page (i + 1)) = None \<longrightarrow> \<not> audio_success (pages sb ! i))"
    and k: "map_of (image_batch partial_env) Cover = None \<longrightarrow>
        dict_get (image_batch partial_env) Cover cover_default = failure ''Cover generation failed'' \<and>
        \<not> e_success (cover sb)"
    by (elim exE conjE) (rule that; assumption)
  have i: "(1::nat) < length [''one'', ''two'']" by simp
  have m': "map_of (image_batch partial_env) (Page (1 + 1)) = None"
    "map_of (audio_batch partial_env) (Page (1 + 1)) = None"
    by (simp_all add: partial_env_def)
  from a [rule_format, OF i] m' have e0: "page_number (pages sb ! 1) = 1 + 1"
    and e: "\<not> e_success (pages sb ! 1)"
    "e_image_data (pages sb ! 1) = ''''" "\<not> audio_success (pages sb ! 1)"
    by blast+
  from e0 have e2: "page_number (pages sb ! 1) = 2" by simp
  from k m have "\<not> e_success (cover sb)" by simp
  with c l e e2 have ex: "\<exists>sb folder stats g' calls.
      create_storybook partial_env plain_request (new_generator True)
        = (Returned (Created sb folder stats), g', calls) \<and>
      length (pages sb) = 2 \<and> page_number (pages sb ! 1) = 2 \<and>
      \<not> e_success (pages sb ! 1) \<and> e_image_data (pages sb ! 1) = '''' \<and>
      \<not> audio_success (pages sb ! 1) \<and> \<not> e_success (cover sb)"
    by auto
  show ?thesis
    by (intro conjI) (rule s3 s4 m ex)+
qed

section \<open>The quota status\<close>

lemma create_storybook_keeps_flag:
  "self_quota_exhausted (fst (snd (create_storybook env req g))) = self_quota_exhausted g"
  by (simp add: create_storybook_def Let_def
      split: outcome.split stage_result.split prod.split)

lemma apply_operation_keeps_flag:
  "self_quota_exhausted (apply_operation op g) = self_quota_exhausted g"
proof (cases op)
  case (CreateStorybook env req)
  then show ?thesis using create_storybook_keeps_flag by simp
next
  case (RegenerateImages env failed_pages)
  then show ?thesis
    by (simp split: option.split outcome.split regen_result.split)
qed simp_all

lemma run_operations_keeps_flag:
  "self_quota_exhausted (run_operations ops g) = self_quota_exhausted g"
  unfolding run_operations_def
  by (induction ops arbitrary: g) (simp_all add: apply_operation_keeps_flag)

text \<open>
  C10. The attribute \<open>quota_exhausted\<close> of the generator is false after construction and
  after every sequence of operations, and the quota-status query reports it as false,
  also after a run whose statistics report quota exhaustion.
\<close>

theorem quota_status_never_set:
  "self_quota_exhausted (run_operations ops (new_generator has_key)) = False \<and>
   status_quota_exhausted (api_check_quota_status (run_operations ops (new_generator has_key))) = False \<and>
   (\<exists>sb folder stats calls.
      create_storybook partial_env plain_request (new_generator has_key)
        = (Returned (Created sb folder stats),
           run_operations [CreateStorybook partial_env plain_request] (new_generator has_key), calls) \<and>
      stats_quota_exhausted stats = True)"
proof -
  have 1: "self_quota_exhausted (run_operations ops (new_generator has_key)) = False"
    by (simp add: run_operations_keeps_flag new_generator_def)
  have s3: "structure_call partial_env = Returned (StageOk plain_structure)"
    "pages_call partial_env = Returned (StageOk ([''one'', ''two''], ''id-1''))"
    "distinct (prompt_order partial_env)"
    by (simp_all add: partial_env_def)
  have s4: "set (prompt_order partial_env) = {0 ..< Suc (length [''one'', ''two''])}"
    by (auto simp: partial_env_def)
  from create_storybook_complete [OF s3 s4, of plain_request "new_generator has_key"]
  obtain sb where c: "create_storybook partial_env plain_request (new_generator has_key) =
           (Returned (Created sb (session_folder partial_env) (make_stats (image_batch partial_env))),
            (begun (new_generator has_key) partial_env)\<lparr>current_storybook := Some sb\<rparr>, all_stages)"
    by blast
  have q: "stats_quota_exhausted (make_stats (image_batch partial_env)) = True"
    by (simp add: make_stats_def partial_env_def quota_result_def quota_failure_def)
  have "run_operations [CreateStorybook partial_env plain_request] (new_generator has_key)
      = (begun (new_generator has_key) partial_env)\<lparr>current_storybook := Some sb\<rparr>"
    using c by (simp add: run_operations_def)
  with c q have 3: "\<exists>sb folder stats calls.
      create_storybook partial_env plain_request (new_generator has_key)
        = (Returned (Created sb folder stats),
           run_operations [CreateStorybook partial_env plain_request] (new_generator has_key), calls) \<and>
      stats_quota_exhausted stats = True"
    by auto
  from 1 3 show ?thesis
    by (simp add: api_check_quota_status_def)
qed

section \<open>Properties of the regeneration\<close>

lemma regenerated_fields_page_number [simp]:
  "page_number (regenerated_fields r pg) = page_number pg"
  by (simp add: regenerated_fields_def)

lemma update_first_page_numbers [simp]:
  "map page_number (update_first_page n r pgs) = map page_number pgs"
  by (induction pgs) simp_all

lemma update_first_page_length [simp]: "length (update_first_page n r pgs) = length pgs"
  by (induction pgs) simp_all

lemma update_first_page_other:
  "i < length pgs \<Longrightarrow> page_number (pgs ! i) \<noteq> n \<Longrightarrow> update_first_page n r pgs ! i = pgs ! i"
proof (induction pgs arbitrary: i)
  case Nil
  then show ?case by simp
next
  case (Cons pg pgs)
  then show ?case by (cases i) auto
qed

lemma update_first_page_cases:
  "i < length pgs \<Longrightarrow>
   update_first_page n r pgs ! i = pgs ! i \<or> update_first_page n r pgs ! i = regenerated_fields r (pgs ! i)"
proof (induction pgs arbitrary: i)
  case Nil
  then show ?case by simp
next
  case (Cons pg pgs)
  then show ?case by (cases i) auto
qed

lemma regenerated_fields_twice:
  "regenerated_fields r2 (regenerated_fields r1 e) = regenerated_fields r2 e"
  by (simp add: regenerated_fields_def)

lemma apply_updates_other_fields:
  "apply_updates todo rr sb k = Returned (sb', k') \<Longrightarrow>
   sb_id sb' = sb_id sb \<and> theme sb' = theme sb \<and> main_character sb' = main_character sb \<and>
   setting sb' = setting sb \<and> story_structure sb' = story_structure sb \<and>
   character_desc sb' = character_desc sb \<and> scene_desc sb' = scene_desc sb \<and>
   created_at sb' = created_at sb \<and> storybook.more sb' = storybook.more sb"
  by (induction todo rr sb k rule: apply_updates.induct)
     (auto split: option.splits if_splits)

lemma apply_updates_numbers:
  "apply_updates todo rr sb k = Returned (sb', k') \<Longrightarrow>
   map page_number (pages sb') = map page_number (pages sb)"
  by (induction todo rr sb k rule: apply_updates.induct)
     (auto split: option.splits if_splits)

lemma page_targets_Cons:
  "page_targets ((ky, n, t, c) # todo) = (if c then page_targets todo else insert n (page_targets todo))"
  by (auto simp: page_targets_def)

lemma apply_updates_pages_kept:
  "apply_updates todo rr sb k = Returned (sb', k') \<Longrightarrow> i < length (pages sb) \<Longrightarrow>
   page_number (pages sb ! i) \<notin> page_targets todo \<Longrightarrow> pages sb' ! i = pages sb ! i"
proof (induction todo rr sb k rule: apply_updates.induct)
  case (1 rr sb k)
  then show ?case by simp
next
  case (2 ky n t c rest rr sb k)
  from "2.prems"(1) obtain result where r: "map_of rr ky = Some result"
    by (auto split: option.splits)
  show ?case
  proof (cases "success result")
    case False
    with 2 r show ?thesis by (auto simp: page_targets_Cons split: if_splits)
  next
    case True
    show ?thesis
    proof (cases c)
      case True
      with 2 r \<open>success result\<close> show ?thesis by (auto simp: page_targets_Cons)
    next
      case False
      let ?sb1 = "sb\<lparr>pages := update_first_page n result (pages sb)\<rparr>"
      have a: "apply_updates rest rr ?sb1 (k + 1) = Returned (sb', k')"
        using "2.prems"(1) r \<open>success result\<close> False by simp
      have ne: "page_number (pages sb ! i) \<noteq> n" and nt: "page_number (pages sb ! i) \<notin> page_targets rest"
        using "2.prems"(3) False by (auto simp: page_targets_Cons)
      have same: "pages ?sb1 ! i = pages sb ! i"
        using update_first_page_other [OF "2.prems"(2) ne] by simp
      have "pages sb' ! i = pages ?sb1 ! i"
        using "2.IH"(2) [OF r \<open>success result\<close> False a] "2.prems"(2) nt same by simp
      with same show ?thesis by simp
    qed
  qed
qed

lemma apply_updates_pages_shape:
  "apply_updates todo rr sb k = Returned (sb', k') \<Longrightarrow> i < length (pages sb) \<Longrightarrow>
   pages sb' ! i = pages sb ! i \<or> (\<exists>r. pages sb' ! i = regenerated_fields r (pages sb ! i))"
proof (induction todo rr sb k rule: apply_updates.induct)
  case (1 rr sb k)
  then show ?case by simp
next
  case (2 ky n t c rest rr sb k)
  from "2.prems"(1) obtain result where r: "map_of rr ky = Some result"
    by (auto split: option.splits)
  show ?case
  proof (cases "success result")
    case False
    with 2 r show ?thesis by auto
  next
    case True
    show ?thesis
    proof (cases c)
      case True
      with 2 r \<open>success result\<close> show ?thesis by auto
    next
      case False
      let ?sb1 = "sb\<lparr>pages := update_first_page n result (pages sb)\<rparr>"
      have a: "apply_updates rest rr ?sb1 (k + 1) = Returned (sb', k')"
        using "2.prems"(1) r \<open>success result\<close> False by simp
      have "pages sb' ! i = pages ?sb1 ! i \<or> (\<exists>r. pages sb' ! i = regenerated_fields r (pages ?sb1 ! i))"
        using "2.IH"(2) [OF r \<open>success result\<close> False a] "2.prems"(2) by simp
      moreover have "pages ?sb1 ! i = pages sb ! i \<or> pages ?sb1 ! i = regenerated_fields result (pages sb ! i)"
        using update_first_page_cases [OF "2.prems"(2)] by simp
      ultimately show ?thesis
        by (metis regenerated_fields_twice)
    qed
  qed
qed

lemma apply_updates_cover_kept:
  "apply_updates todo rr sb k = Returned (sb', k') \<Longrightarrow> \<not> names_cover todo \<Longrightarrow> cover sb' = cover sb"
  by (induction todo rr sb k rule: apply_updates.induct)
     (auto simp: names_cover_def split: option.splits if_splits)

lemma apply_updates_cover_shape:
  "apply_updates todo rr sb k = Returned (sb', k') \<Longrightarrow>
   cover sb' = cover sb \<or> (\<exists>r. cover sb' = regenerated_fields r (cover sb))"
proof (induction todo rr sb k rule: apply_updates.induct)
  case (1 rr sb k)
  then show ?case by simp
next
  case (2 ky n t c rest rr sb k)
  from "2.prems"(1) obtain result where r: "map_of rr ky = Some result"
    by (auto split: option.splits)
  show ?case
  proof (cases "success result \<and> c")
    case False
    with 2 r show ?thesis by (auto split: if_splits)
  next
    case True
    let ?sb1 = "sb\<lparr>cover := regenerated_fields result (cover sb)\<rparr>"
    have a: "apply_updates rest rr ?sb1 (k + 1) = Returned (sb', k')"
      using "2.prems"(1) r True by simp
    have "cover sb' = cover ?sb1 \<or> (\<exists>r. cover sb' = regenerated_fields r (cover ?sb1))"
      using "2.IH"(1) [OF r _ _ a] True by simp
    then show ?thesis
      by (auto simp: regenerated_fields_twice)
  qed
qed

lemma regenerate_loop_calls:
  "regenerate_loop env k todo acc = (Returned rr, calls) \<Longrightarrow> calls = calls_of todo"
proof (induction env k todo acc arbitrary: calls rule: regenerate_loop.induct)
  case (1 env k acc)
  then show ?case by (simp add: calls_of_def)
next
  case (2 env k ky n t c rest acc)
  from "2.prems" obtain prompt result calls' where
    p: "build_prompt env k = Returned prompt" and g: "generate_image env k = Returned result"
    and l: "regenerate_loop env (k + 1) rest (AList.update ky result acc) = (Returned rr, calls')"
    and c: "calls = PromptCall ky # ImageCall ky # calls'"
    by (auto split: outcome.splits prod.splits)
  from "2.IH" [OF p g l] c show ?case
    by (simp add: calls_of_def)
qed

lemma pages_to_regenerate_targets:
  assumes "distinct (map page_number (pages sb))" and "i < length (pages sb)"
    and "e_success (pages sb ! i) \<or> \<not> targeted failed (page_number (pages sb ! i))"
  shows "page_number (pages sb ! i) \<notin> page_targets (pages_to_regenerate sb failed)"
proof
  assume "page_number (pages sb ! i) \<in> page_targets (pages_to_regenerate sb failed)"
  then obtain pg where pg: "pg \<in> set (pages sb)" "\<not> e_success pg" "targeted failed (page_number pg)"
    and n: "page_number pg = page_number (pages sb ! i)"
    by (auto simp: page_targets_def pages_to_regenerate_def split: if_splits)
  from pg(1) obtain j where j: "j < length (pages sb)" "pages sb ! j = pg"
    by (auto simp: in_set_conv_nth)
  with n assms(1,2) have "j = i"
    by (metis distinct_conv_nth length_map nth_map)
  with j pg assms(3) show False by auto
qed

lemma pages_to_regenerate_cover:
  "names_cover (pages_to_regenerate sb failed) \<longleftrightarrow> \<not> e_success (cover sb) \<and> targeted failed 0"
  by (auto simp: names_cover_def pages_to_regenerate_def list_ex_iff)

text \<open>
  The storybooks the controller creates have the page numbers \<open>1, 2, ...\<close>, each once,
  and the regeneration keeps the page numbers.
\<close>

lemma created_page_numbers:
  assumes "structure_call env = Returned (StageOk st)"
    and "pages_call env = Returned (StageOk (pgs, sid))"
    and "distinct (prompt_order env)" and "set (prompt_order env) = {0 ..< Suc (length pgs)}"
    and "create_storybook env req g = (Returned (Created sb folder stats), g', calls)"
  shows "map page_number (pages sb) = [1 ..< Suc (length pgs)]"
proof -
  from create_storybook_complete [OF assms(1-4), of req g] assms(5)
  have "pages sb = map (\<lambda>j. page_data (image_batch env) (audio_batch env)
              (fst (snd (generate_all_prompts_parallel pgs (prompt_of env) (prompt_order env) ! j)))
              (j + 1) (pgs ! j)) [0 ..< length pgs]"
    by auto
  then have "map page_number (pages sb) = map Suc [0 ..< length pgs]"
    by (simp add: comp_def)
  then show ?thesis
    by (simp add: map_Suc_upt)
qed

lemma regenerated_page_numbers:
  assumes "regenerate_failed_images env (Some sb) failed = (Returned (Regenerated k n sb'), calls)"
  shows "map page_number (pages sb') = map page_number (pages sb)"
  using assms apply_updates_numbers
  by (auto simp: regenerate_failed_images_def Let_def
      split: if_splits prod.splits outcome.splits)

text \<open>
  C8. On a storybook whose page numbers are distinct, a regeneration that returns the
  updated storybook has changed, at most, entries whose image success flag was false and,
  when page numbers are supplied, whose number is among them (the cover counting as page
  0): every other page entry and the cover are as before, and so is the rest of the
  storybook. A changed entry differs from the old one in \<open>image_data\<close>, \<open>success\<close> and
  \<open>model\<close> only. The entries are processed one after the other, one prompt call and one
  image call each, in the order of the pages followed by the cover.
\<close>

theorem regeneration_frame:
  assumes "distinct (map page_number (pages sb))"
    and "regenerate_failed_images env (Some sb) failed_page_numbers
           = (Returned (Regenerated successful attempted sb'), calls)"
  shows "sb' = sb\<lparr>pages := pages sb', cover := cover sb'\<rparr> \<and>
     length (pages sb') = length (pages sb) \<and>
     (\<forall>i<length (pages sb).
        (e_success (pages sb ! i) \<or> \<not> targeted failed_page_numbers (page_number (pages sb ! i))
           \<longrightarrow> pages sb' ! i = pages sb ! i) \<and>
        (pages sb' ! i = pages sb ! i \<or> (\<exists>r. pages sb' ! i = regenerated_fields r (pages sb ! i)))) \<and>
     (e_success (cover sb) \<or> \<not> targeted failed_page_numbers 0 \<longrightarrow> cover sb' = cover sb) \<and>
     (cover sb' = cover sb \<or> (\<exists>r. cover sb' = regenerated_fields r (cover sb))) \<and>
     calls = calls_of (pages_to_regenerate sb failed_page_numbers) \<and>
     attempted = length (pages_to_regenerate sb failed_page_numbers)"
proof -
  let ?todo = "pages_to_regenerate sb failed_page_numbers"
  from assms(2) obtain rr where
    l: "regenerate_loop env 0 ?todo [] = (Returned rr, calls)"
    and u: "apply_updates ?todo rr sb 0 = Returned (sb', successful)"
    and n: "attempted = length ?todo"
    by (auto simp: regenerate_failed_images_def Let_def
        split: if_splits prod.splits outcome.splits)
  have 1: "sb' = sb\<lparr>pages := pages sb', cover := cover sb'\<rparr>"
    using apply_updates_other_fields [OF u] by (intro storybook.equality) simp_all
  have 2: "length (pages sb') = length (pages sb)"
    using apply_updates_numbers [OF u] by (metis length_map)
  have 3: "\<forall>i<length (pages sb).
        (e_success (pages sb ! i) \<or> \<not> targeted failed_page_numbers (page_number (pages sb ! i))
           \<longrightarrow> pages sb' ! i = pages sb ! i) \<and>
        (pages sb' ! i = pages sb ! i \<or> (\<exists>r. pages sb' ! i = regenerated_fields r (pages sb ! i)))"
    using apply_updates_pages_kept [OF u] apply_updates_pages_shape [OF u]
      pages_to_regenerate_targets [OF assms(1)]
    by blast
  have 4: "e_success (cover sb) \<or> \<not> targeted failed_page_numbers 0 \<longrightarrow> cover sb' = cover sb"
    using apply_updates_cover_kept [OF u] pages_to_regenerate_cover [of sb failed_page_numbers]
    by blast
  have 5: "cover sb' = cover sb \<or> (\<exists>r. cover sb' = regenerated_fields r (cover sb))"
    using apply_updates_cover_shape [OF u] .
  have 6: "calls = calls_of ?todo"
    using regenerate_loop_calls [OF l] .
  from 1 2 3 4 5 6 n show ?thesis by blast
qed

theorem regeneration_frame_witness:
  "distinct (map page_number (pages sample_book)) \<and>
   regenerate_failed_images sample_regen_env (Some sample_book) (Some [2, 0])
     = (Returned (Regenerated 1 2 regenerated_book),
        [PromptCall (Page 2), ImageCall (Page 2), PromptCall Cover, ImageCall Cover]) \<and>
   e_success (pages sample_book ! 0) \<and>
   pages regenerated_book ! 0 = pages sample_book ! 0 \<and>
   \<not> targeted (Some [2, 0]) (page_number (pages sample_book ! 2)) \<and>
   pages regenerated_book ! 2 = pages sample_book ! 2 \<and>
   length (pages regenerated_book) = length (pages sample_book)"
proof -
  have d: "distinct (map page_number (pages sample_book))"
    by code_simp
  have r: "regenerate_failed_images sample_regen_env (Some sample_book) (Some [2, 0])
     = (Returned (Regenerated 1 2 regenerated_book),
        [PromptCall (Page 2), ImageCall (Page 2), PromptCall Cover, ImageCall Cover])"
    by code_simp
  have s: "e_success (pages sample_book ! 0)"
    by code_simp
  have t: "\<not> targeted (Some [2, 0]) (page_number (pages sample_book ! 2))"
    by code_simp
  have i: "0 < length (pages sample_book)" "2 < length (pages sample_book)"
    by (simp_all add: sample_book_def)
  note f = regeneration_frame [OF d r]
  have k: "\<forall>i<length (pages sample_book).
        (e_success (pages sample_book ! i) \<or>
         \<not> targeted (Some [2, 0]) (page_number (pages sample_book ! i))
           \<longrightarrow> pages regenerated_book ! i = pages sample_book ! i) \<and>
        (pages regenerated_book ! i = pages sample_book ! i \<or>
         (\<exists>r. pages regenerated_book ! i = regenerated_fields r (pages sample_book ! i)))"
    and l: "length (pages regenerated_book) = length (pages sample_book)"
    using f by blast+
  have 0: "pages regenerated_book ! 0 = pages sample_book ! 0"
    using k [rule_format, OF i(1)] s by blast
  have 2: "pages regenerated_book ! 2 = pages sample_book ! 2"
    using k [rule_format, OF i(2)] t by blast
  show ?thesis
    by (intro conjI) (rule d r s t 0 2 l)+
qed


end
